theory Spec2Isabelle
  imports Complex_Main
begin

section \<open>Time and durations\<close>

text \<open>
  A \<open>Time\<close> is an instant, counted in nanoseconds since the Unix epoch; Go's
  \<open>time.Time\<close> carries a location and a monotonic reading besides, which none of the
  functions below reads back. A \<open>Duration\<close> is Go's \<open>time.Duration\<close>, an \<open>int64\<close>
  count of nanoseconds: products wrap around (\<open>wrap64\<close>) and \<open>Time.Sub\<close> saturates.
  The configuration's \<open>int\<close> fields are Go \<open>int\<close>s of 64 bits.
\<close>

type_synonym Time = int
type_synonym Duration = int

definition wrap64 :: "int \<Rightarrow> int" where
  "wrap64 x = (x + 2 ^ 63) mod 2 ^ 64 - 2 ^ 63"

definition maxDuration :: Duration where
  "maxDuration = 2 ^ 63 - 1"

definition minDuration :: Duration where
  "minDuration = - (2 ^ 63)"

definition Second :: Duration where
  "Second = 1000000000"

definition Minute :: Duration where
  "Minute = 60 * Second"

definition Hour :: Duration where
  "Hour = 60 * Minute"

text \<open>\<open>time.Duration(n) * unit\<close> on \<open>int64\<close>.\<close>

definition mulDuration :: "int \<Rightarrow> Duration \<Rightarrow> Duration" where
  "mulDuration n unit = wrap64 (n * unit)"

definition Time_Add :: "Time \<Rightarrow> Duration \<Rightarrow> Time" where
  "Time_Add t d = t + d"

definition Time_After :: "Time \<Rightarrow> Time \<Rightarrow> bool" where
  "Time_After t u = (u < t)"

text \<open>\<open>t.Sub(u)\<close>: the difference, or the largest (smallest) duration when it does not fit.\<close>

definition Time_Sub :: "Time \<Rightarrow> Time \<Rightarrow> Duration" where
  "Time_Sub t u =
     (if maxDuration < t - u then maxDuration
      else if t - u < minDuration then minDuration
      else t - u)"

section \<open>Configuration and manager (config.go, heating\_manager.go)\<close>

record Config =
  SolarManagerURL :: string
  SolarManagerSensorID :: string
  TemperatureThreshold :: real
  TemperatureTurnOff :: real
  CheckInterval_cfg :: int
  WeeklyCheckInterval :: int
  Username :: string
  Password :: string
  HeatPumpID :: string
  HeatPumpControlURL :: string

text \<open>
  The two \<open>float64\<close> fields and the sensor reading come out of a JSON decoder, so they
  are finite; the code only compares them, and on finite values \<open>>\<close> of \<open>float64\<close> is
  the order of the reals they denote. \<open>CheckInterval_cfg\<close> is the configuration's
  \<open>CheckInterval\<close>, in minutes; the manager has a field of the same name.
\<close>

record HeatingManager =
  Config :: Config
  TemperatureExceeded :: bool
  CheckInterval :: Duration
  LastCheckFile :: string
  Token :: string
  TokenExpiry :: Time

section \<open>The world outside the process\<close>

datatype json = JInt int | JString string | JObject "(string \<times> json) list"

record request =
  req_verb :: string
  req_url :: string
  req_header :: "(string \<times> string) list"
  req_body :: "json option"

text \<open>
  A response carries its status code and what \<open>json.NewDecoder(resp.Body).Decode\<close>
  makes of its body for each of the two result structs of the code (\<open>None\<close>: the decoder
  returns an error): \<open>{accessToken, expiresIn}\<close> for login and refresh, and
  \<open>data.currentWaterTemp\<close> for the sensor.
\<close>

record response =
  StatusCode :: int
  auth_body :: "(string \<times> int) option"
  temp_body :: "real option"

datatype reply = TransportError | Response response

text \<open>What a failed \<open>os.WriteFile\<close> leaves at the path is the file system's choice.\<close>

datatype write_outcome = Written | WriteFailed "string option"

text \<open>
  The environment of one operation: the clock (\<open>time.Now()\<close>, read as one instant for
  the operation), the local zone's offset from UTC in seconds, the network's answer to
  each request, whether \<open>http.NewRequest\<close> accepts a URL, what \<open>fmt.Sprintf\<close> makes of a
  format with one string argument, the outcome of \<open>os.WriteFile\<close>, and what
  \<open>time.Parse\<close> makes of a string that is not a whole-second RFC 3339 timestamp.
\<close>

record env =
  clock :: Time
  zone :: int
  network :: "request \<Rightarrow> reply"
  valid_url :: "string \<Rightarrow> bool"
  Sprintf :: "string \<Rightarrow> string \<Rightarrow> string"
  write_file :: write_outcome
  parse_other :: "string \<Rightarrow> Time option"

datatype error =
    AuthRequestFailed
  | AuthenticationFailed int
  | AuthDecodeFailed
  | RefreshRequestFailed
  | RefreshStatus int
  | RefreshDecodeFailed
  | CreatingRequest
  | GetTemperatureFailed
  | GetTemperatureStatus int
  | UnmarshalTemperature
  | GettingAuthToken error
  | ExecutingRequest
  | ModifyHeatPumpState int
  | ReadLastCheckTime
  | ParseLastCheckTime

datatype action = HeatingOn | HeatingOff

datatype line =
    FailedToGetTemperature error
  | FailedToTurnOn error
  | FailedToTurnOff error
  | FailedToSave
  | TemperatureHasExceeded real
  | TemperatureIsOK real
  | HeatPumpStateChanged

text \<open>
  What an operation does to the outside, in order: a request handed to the HTTP client,
  a timer registered with \<open>time.AfterFunc\<close>, a call of \<open>os.WriteFile\<close>, a line logged or
  printed. \<open>Call\<close> is a history entry made on entry to \<open>turnHeatingOn\<close> and
  \<open>turnHeatingOff\<close>.
\<close>

datatype event =
    Call action
  | Send request
  | AfterFunc Duration action
  | WriteFile string string
  | Output line

record machine =
  hm :: HeatingManager
  disk :: "string \<rightharpoonup> string"
  trace :: "event list"

definition emit :: "event \<Rightarrow> machine \<Rightarrow> machine" where
  "emit ev m = m\<lparr>trace := trace m @ [ev]\<rparr>"

definition StatusOK :: int where
  "StatusOK = 200"

definition StatusNoContent :: int where
  "StatusNoContent = 204"

section \<open>Authentication (auth.go; the same text in heating\_manager.go)\<close>

definition login_request :: "machine \<Rightarrow> request" where
  "login_request m =
     \<lparr>req_verb = ''POST'',
      req_url = ''https://cloud.solar-manager.ch/v1/oauth/login'',
      req_header = [(''Content-Type'', ''application/json'')],
      req_body = Some (JObject [(''email'', JString (Username (Config (hm m)))),
                                (''password'', JString (Password (Config (hm m))))])\<rparr>"

text \<open>
  \<open>json.Marshal\<close> of a map of strings cannot fail, and \<open>http.NewRequest\<close> accepts the
  two constant URLs: those error returns are dead and have no branch here.
\<close>

definition login :: "env \<Rightarrow> machine \<Rightarrow> machine \<times> error option" where
  "login e m =
     (let m1 = emit (Send (login_request m)) m in
      case network e (login_request m) of
        TransportError \<Rightarrow> (m1, Some AuthRequestFailed)
      | Response resp \<Rightarrow>
          if StatusCode resp \<noteq> StatusOK
          then (m1, Some (AuthenticationFailed (StatusCode resp)))
          else (case auth_body resp of
                  None \<Rightarrow> (m1, Some AuthDecodeFailed)
                | Some (accessToken, expiresIn) \<Rightarrow>
                    (m1\<lparr>hm := (hm m1)\<lparr>Token := accessToken,
                          TokenExpiry := Time_Add (clock e) (mulDuration expiresIn Second)\<rparr>\<rparr>,
                     None)))"

definition refresh_request :: "machine \<Rightarrow> request" where
  "refresh_request m =
     \<lparr>req_verb = ''POST'',
      req_url = ''https://cloud.solar-manager.ch/v1/oauth/refresh'',
      req_header = [(''Authorization'', ''Bearer '' @ Token (hm m))],
      req_body = None\<rparr>"

definition refreshToken :: "env \<Rightarrow> machine \<Rightarrow> machine \<times> error option" where
  "refreshToken e m =
     (let m1 = emit (Send (refresh_request m)) m in
      case network e (refresh_request m) of
        TransportError \<Rightarrow> (m1, Some RefreshRequestFailed)
      | Response resp \<Rightarrow>
          if StatusCode resp \<noteq> StatusOK
          then (m1, Some (RefreshStatus (StatusCode resp)))
          else (case auth_body resp of
                  None \<Rightarrow> (m1, Some RefreshDecodeFailed)
                | Some (accessToken, expiresIn) \<Rightarrow>
                    (m1\<lparr>hm := (hm m1)\<lparr>Token := accessToken,
                          TokenExpiry := Time_Add (clock e) (mulDuration expiresIn Second)\<rparr>\<rparr>,
                     None)))"

definition getAuthToken :: "env \<Rightarrow> machine \<Rightarrow> machine \<times> error option" where
  "getAuthToken e m =
     (if Token (hm m) = [] then login e m
      else if Time_After (clock e) (TokenExpiry (hm m)) then refreshToken e m
      else (m, None))"

section \<open>Heating control (heating\_control.go)\<close>

definition control_request :: "string \<Rightarrow> json \<Rightarrow> machine \<Rightarrow> request" where
  "control_request url requestBody m =
     \<lparr>req_verb = ''PUT'',
      req_url = url,
      req_header = [(''Authorization'', ''Bearer '' @ Token (hm m)),
                    (''Content-Type'', ''application/json'')],
      req_body = Some requestBody\<rparr>"

definition makeHeatingControlRequest ::
    "env \<Rightarrow> string \<Rightarrow> json \<Rightarrow> machine \<Rightarrow> machine \<times> error option" where
  "makeHeatingControlRequest e url requestBody m =
     (if \<not> valid_url e url then (m, Some CreatingRequest)
      else
        let m1 = emit (Send (control_request url requestBody m)) m in
        case network e (control_request url requestBody m) of
          TransportError \<Rightarrow> (m1, Some ExecutingRequest)
        | Response resp \<Rightarrow>
            if StatusCode resp \<noteq> StatusOK \<and> StatusCode resp \<noteq> StatusNoContent
            then (m1, Some (ModifyHeatPumpState (StatusCode resp)))
            else if StatusCode resp = StatusOK
            then (emit (Output HeatPumpStateChanged) m1, None)
            else (m1, None))"

text \<open>The body \<open>json.Marshal\<close> makes of the one-entry map; it cannot fail on it.\<close>

definition chargingMode :: "int \<Rightarrow> json" where
  "chargingMode n = JObject [(''heatPumpChargingMode'', JInt n)]"

definition turnHeatingOn :: "env \<Rightarrow> machine \<Rightarrow> machine \<times> error option" where
  "turnHeatingOn e m0 =
     (let m = emit (Call HeatingOn) m0 in
      case getAuthToken e m of
        (m1, Some err) \<Rightarrow> (m1, Some (GettingAuthToken err))
      | (m1, None) \<Rightarrow>
          makeHeatingControlRequest e
            (Sprintf e (HeatPumpControlURL (Config (hm m1))) (HeatPumpID (Config (hm m1))))
            (chargingMode 1) m1)"

definition turnHeatingOff :: "env \<Rightarrow> machine \<Rightarrow> machine \<times> error option" where
  "turnHeatingOff e m0 =
     (let m = emit (Call HeatingOff) m0 in
      case getAuthToken e m of
        (m1, Some err) \<Rightarrow> (m1, Some (GettingAuthToken err))
      | (m1, None) \<Rightarrow>
          makeHeatingControlRequest e
            (Sprintf e (HeatPumpControlURL (Config (hm m1))) (HeatPumpID (Config (hm m1))))
            (chargingMode 2) m1)"


section \<open>Temperature (temperature.go)\<close>

definition sensor_request :: "machine \<Rightarrow> request" where
  "sensor_request m =
     \<lparr>req_verb = ''GET'',
      req_url = SolarManagerURL (Config (hm m)) @ ''/'' @ SolarManagerSensorID (Config (hm m)),
      req_header = [(''Authorization'', ''Bearer '' @ Token (hm m))],
      req_body = None\<rparr>"

definition getTemperature :: "env \<Rightarrow> machine \<Rightarrow> machine \<times> (error + real)" where
  "getTemperature e m =
     (case getAuthToken e m of
        (m1, Some err) \<Rightarrow> (m1, Inl err)
      | (m1, None) \<Rightarrow>
          if \<not> valid_url e (req_url (sensor_request m1)) then (m1, Inl CreatingRequest)
          else
            (let m2 = emit (Send (sensor_request m1)) m1 in
             case network e (sensor_request m1) of
               TransportError \<Rightarrow> (m2, Inl GetTemperatureFailed)
             | Response resp \<Rightarrow>
                 if StatusCode resp \<noteq> StatusOK
                 then (m2, Inl (GetTemperatureStatus (StatusCode resp)))
                 else (case temp_body resp of
                         None \<Rightarrow> (m2, Inl UnmarshalTemperature)
                       | Some currentWaterTemp \<Rightarrow> (m2, Inr currentWaterTemp))))"

definition checkTemperature :: "env \<Rightarrow> machine \<Rightarrow> machine" where
  "checkTemperature e m =
     (case getTemperature e m of
        (m1, Inl err) \<Rightarrow> emit (Output (FailedToGetTemperature err)) m1
      | (m1, Inr temperature) \<Rightarrow>
          if temperature > TemperatureThreshold (Config (hm m1))
          then (emit (Output (TemperatureHasExceeded (TemperatureThreshold (Config (hm m1))))) m1)
                 \<lparr>hm := (hm m1)\<lparr>TemperatureExceeded := True\<rparr>\<rparr>
          else (emit (Output (TemperatureIsOK temperature)) m1)
                 \<lparr>hm := (hm m1)\<lparr>TemperatureExceeded := False\<rparr>\<rparr>)"

section \<open>RFC 3339 timestamps (\<open>time.Format\<close> and \<open>time.Parse\<close> with \<open>time.RFC3339\<close>)\<close>

text \<open>
  The layout \<open>2006-01-02T15:04:05Z07:00\<close> prints the civil date and clock time of an
  instant in the local zone, in whole seconds, and the zone's offset in hours and
  minutes. The calendar is the proleptic Gregorian one; days are counted from
  0000-01-01, which is 719528 days before the Unix epoch.
\<close>

definition isLeap :: "int \<Rightarrow> bool" where
  "isLeap y = (y mod 4 = 0 \<and> (y mod 100 \<noteq> 0 \<or> y mod 400 = 0))"

definition daysBeforeYear :: "int \<Rightarrow> int" where
  "daysBeforeYear y = 365 * y + (y + 3) div 4 - (y + 99) div 100 + (y + 399) div 400"

definition monthLengths :: "int \<Rightarrow> int list" where
  "monthLengths y = [31, if isLeap y then 29 else 28, 31, 30, 31, 30, 31, 31, 30, 31, 30, 31]"

definition daysIn :: "int \<Rightarrow> int \<Rightarrow> int" where
  "daysIn month year = monthLengths year ! nat (month - 1)"

definition yearOfDay :: "int \<Rightarrow> int" where
  "yearOfDay d =
     (let y = (400 * d) div 146097 in
      if d < daysBeforeYear y then y - 1
      else if daysBeforeYear (y + 1) \<le> d then y + 1
      else y)"

fun monthDay :: "int list \<Rightarrow> int \<Rightarrow> int \<Rightarrow> int \<times> int" where
  "monthDay [] month yday = (month, yday + 1)"
| "monthDay (n # ns) month yday =
     (if yday < n then (month, yday + 1) else monthDay ns (month + 1) (yday - n))"

text \<open>\<open>absDate\<close>: year, month and day of a day number.\<close>

definition absDate :: "int \<Rightarrow> int \<times> int \<times> int" where
  "absDate d =
     (let year = yearOfDay d in
      case monthDay (monthLengths year) 1 (d - daysBeforeYear year) of
        (month, day) \<Rightarrow> (year, month, day))"

text \<open>\<open>time.Date\<close> in UTC, on fields that are in range: the Unix time in seconds.\<close>

definition Date :: "int \<Rightarrow> int \<Rightarrow> int \<Rightarrow> int \<Rightarrow> int \<Rightarrow> int \<Rightarrow> int" where
  "Date year month day hour minute sec =
     (daysBeforeYear year + sum_list (take (nat (month - 1)) (monthLengths year)) + (day - 1)
        - 719528) * 86400
     + hour * 3600 + minute * 60 + sec"

definition digit :: "int \<Rightarrow> char" where
  "digit n = char_of (48 + n)"

function utoa :: "int \<Rightarrow> string" where
  "utoa u = (if u < 10 then [digit u] else utoa (u div 10) @ [digit (u mod 10)])"
  by pat_completeness auto
termination
  by (relation "measure nat") auto

text \<open>\<open>appendInt\<close>: the decimal digits of \<open>x\<close>, zero-padded to \<open>width\<close>, after its sign.\<close>

definition appendInt :: "int \<Rightarrow> nat \<Rightarrow> string" where
  "appendInt x width =
     (if x < 0 then ''-'' else []) @
     replicate (width - length (utoa \<bar>x\<bar>)) (CHR ''0'') @ utoa \<bar>x\<bar>"

text \<open>Go's \<open>/\<close> on integers truncates towards zero.\<close>

definition quot :: "int \<Rightarrow> int \<Rightarrow> int" where
  "quot a b = sgn a * sgn b * (\<bar>a\<bar> div \<bar>b\<bar>)"

definition formatZone :: "int \<Rightarrow> string" where
  "formatZone offset =
     (if offset = 0 then ''Z''
      else
        let z = quot offset 60 in
        (if z < 0 then ''-'' else ''+'') @ appendInt (\<bar>z\<bar> div 60) 2 @ '':'' @ appendInt (\<bar>z\<bar> mod 60) 2)"

definition Format_RFC3339 :: "int \<Rightarrow> Time \<Rightarrow> string" where
  "Format_RFC3339 offset t =
     (let loc = t div 1000000000 + offset;
          clk = loc mod 86400
      in case absDate (loc div 86400 + 719528) of
           (year, month, day) \<Rightarrow>
             appendInt year 4 @ ''-'' @ appendInt month 2 @ ''-'' @ appendInt day 2 @ ''T'' @
             appendInt (clk div 3600) 2 @ '':'' @ appendInt (clk mod 3600 div 60) 2 @ '':'' @
             appendInt (clk mod 60) 2 @ formatZone offset)"

definition isDigit :: "char \<Rightarrow> bool" where
  "isDigit c = (48 \<le> (of_char c :: int) \<and> (of_char c :: int) \<le> 57)"

fun atoi :: "string \<Rightarrow> int \<Rightarrow> int option" where
  "atoi [] x = Some x"
| "atoi (c # cs) x = (if isDigit c then atoi cs (x * 10 + of_char c - 48) else None)"

definition parseUint :: "string \<Rightarrow> int \<Rightarrow> int \<Rightarrow> int option" where
  "parseUint s lo hi =
     (case atoi s 0 of
        None \<Rightarrow> None
      | Some x \<Rightarrow> if x < lo \<or> hi < x then None else Some x)"

definition parseZone :: "int \<Rightarrow> string \<Rightarrow> Time option" where
  "parseZone unixSec s =
     (if s = ''Z'' then Some (unixSec * 1000000000)
      else if length s \<noteq> 6 then None
      else
        case (parseUint (take 2 (drop 1 s)) 0 23, parseUint (take 2 (drop 4 s)) 0 59) of
          (Some hr, Some mm) \<Rightarrow>
            if \<not> ((s ! 0 = CHR ''-'' \<or> s ! 0 = CHR ''+'') \<and> s ! 3 = CHR '':'') then None
            else
              let zoneOffset = (hr * 60 + mm) * 60 in
              Some ((unixSec - (if s ! 0 = CHR ''-'' then - zoneOffset else zoneOffset))
                      * 1000000000)
        | _ \<Rightarrow> None)"

text \<open>
  \<open>parseRFC3339\<close> reads the timestamps that have whole seconds: four digits of year,
  two of each other field, the separators, and \<open>Z\<close> or a signed offset.
\<close>

definition parseRFC3339 :: "string \<Rightarrow> Time option" where
  "parseRFC3339 s =
     (if length s < 19 then None
      else
        case (parseUint (take 4 s) 0 9999, parseUint (take 2 (drop 5 s)) 1 12) of
          (Some year, Some month) \<Rightarrow>
            (case (parseUint (take 2 (drop 8 s)) 1 (daysIn month year),
                   parseUint (take 2 (drop 11 s)) 0 23,
                   parseUint (take 2 (drop 14 s)) 0 59,
                   parseUint (take 2 (drop 17 s)) 0 59) of
               (Some day, Some hour, Some minute, Some sec) \<Rightarrow>
                 if \<not> (s ! 4 = CHR ''-'' \<and> s ! 7 = CHR ''-'' \<and> s ! 10 = CHR ''T'' \<and>
                        s ! 13 = CHR '':'' \<and> s ! 16 = CHR '':'') then None
                 else parseZone (Date year month day hour minute sec) (drop 19 s)
             | _ \<Rightarrow> None)
        | _ \<Rightarrow> None)"

text \<open>
  \<open>time.Parse(time.RFC3339, s)\<close>: on every other string (fractional seconds, the forms
  Go's general parser lets pass, and the strings it rejects) the result is the
  environment's, \<open>None\<close> being a parse error.
\<close>

definition Parse_RFC3339 :: "env \<Rightarrow> string \<Rightarrow> Time option" where
  "Parse_RFC3339 e s =
     (case parseRFC3339 s of Some t \<Rightarrow> Some t | None \<Rightarrow> parse_other e s)"

section \<open>The weekly check (heating\_manager.go)\<close>

text \<open>
  \<open>weeklyCheck\<close> calls \<open>turnHeatingOn\<close> as heating\_control.go declares it, and the
  function its timer runs calls \<open>turnHeatingOff\<close> of the same file.
\<close>

definition saveLastCheckTime :: "env \<Rightarrow> machine \<Rightarrow> machine" where
  "saveLastCheckTime e m =
     (let data = Format_RFC3339 (zone e) (clock e);
          m1 = emit (WriteFile (LastCheckFile (hm m)) data) m
      in case write_file e of
           Written \<Rightarrow> m1\<lparr>disk := (disk m1)(LastCheckFile (hm m) \<mapsto> data)\<rparr>
         | WriteFailed left \<Rightarrow>
             emit (Output FailedToSave) (m1\<lparr>disk := (disk m1)(LastCheckFile (hm m) := left)\<rparr>))"

definition readLastCheckTime :: "env \<Rightarrow> machine \<Rightarrow> error + Time" where
  "readLastCheckTime e m =
     (case disk m (LastCheckFile (hm m)) of
        None \<Rightarrow> Inl ReadLastCheckTime
      | Some data \<Rightarrow>
          (case Parse_RFC3339 e data of
             None \<Rightarrow> Inl ParseLastCheckTime
           | Some lastCheck \<Rightarrow> Inr lastCheck))"

definition nextWeeklyCheckDuration :: "env \<Rightarrow> machine \<Rightarrow> Duration" where
  "nextWeeklyCheckDuration e m =
     (case readLastCheckTime e m of
        Inl err \<Rightarrow> 0
      | Inr lastCheck \<Rightarrow>
          let nextCheck = Time_Add lastCheck (mulDuration (WeeklyCheckInterval (Config (hm m))) Hour)
          in if Time_After (clock e) nextCheck then 0 else Time_Sub nextCheck (clock e))"

definition weeklyCheck :: "env \<Rightarrow> machine \<Rightarrow> machine" where
  "weeklyCheck e m =
     (let m2 =
        (if \<not> TemperatureExceeded (hm m)
         then
           let m1 = (case turnHeatingOn e m of
                       (m', Some err) \<Rightarrow> emit (Output (FailedToTurnOn err)) m'
                     | (m', None) \<Rightarrow> m')
           in emit (AfterFunc (4 * Hour) HeatingOff) m1
         else m)
      in saveLastCheckTime e (m2\<lparr>hm := (hm m2)\<lparr>TemperatureExceeded := False\<rparr>\<rparr>))"

text \<open>The function the timer runs when it fires, in the environment of that moment.\<close>

definition delayedOff :: "env \<Rightarrow> machine \<Rightarrow> machine" where
  "delayedOff e m =
     (case turnHeatingOff e m of
        (m', Some err) \<Rightarrow> emit (Output (FailedToTurnOff err)) m'
      | (m', None) \<Rightarrow> m')"

text \<open>The first statement of \<open>weeklyCheck\<close>, the \<open>if\<close> with the actuation, by itself.\<close>

definition actuation :: "env \<Rightarrow> machine \<Rightarrow> machine" where
  "actuation e m =
     (if \<not> TemperatureExceeded (hm m)
      then emit (AfterFunc (4 * Hour) HeatingOff)
             (case turnHeatingOn e m of
                (m', Some err) \<Rightarrow> emit (Output (FailedToTurnOn err)) m'
              | (m', None) \<Rightarrow> m')
      else m)"

section \<open>The delay as the specification words it\<close>

text \<open>
  \<open>computeNextDelay\<close> follows the specification, not the code, and counts in unbounded
  integers: no delay without a checkpoint; the time left until checkpoint plus interval
  while that lies ahead; no delay otherwise. The interval is in hours, the times and the
  delay in nanoseconds.
\<close>

definition computeNextDelay :: "int \<Rightarrow> int option \<Rightarrow> int \<Rightarrow> int" where
  "computeNextDelay now checkpoint weeklyIntervalHours =
     (case checkpoint of
        None \<Rightarrow> 0
      | Some lastCheck \<Rightarrow>
          if now < lastCheck + weeklyIntervalHours * 3600000000000
          then lastCheck + weeklyIntervalHours * 3600000000000 - now
          else 0)"

section \<open>Start-up (heating\_manager.go)\<close>

text \<open>
  \<open>NewHeatingManager\<close> on the configuration \<open>loadConfig\<close> returned: the fields it does
  not set hold Go's zero values, the zero \<open>time.Time\<close> being 0001-01-01T00:00:00Z.
\<close>

definition NewHeatingManager :: "Config \<Rightarrow> HeatingManager" where
  "NewHeatingManager config =
     \<lparr>Config = config,
      TemperatureExceeded = False,
      CheckInterval = mulDuration (CheckInterval_cfg config) Minute,
      LastCheckFile = ''lastCheck.txt'',
      Token = [],
      TokenExpiry = - 62135596800 * 1000000000\<rparr>"

section \<open>Reading a trace\<close>

fun requests :: "event list \<Rightarrow> request list" where
  "requests [] = []"
| "requests (Send r # evs) = r # requests evs"
| "requests (_ # evs) = requests evs"

fun calls :: "event list \<Rightarrow> action list" where
  "calls [] = []"
| "calls (Call a # evs) = a # calls evs"
| "calls (_ # evs) = calls evs"

fun timers :: "event list \<Rightarrow> (Duration \<times> action) list" where
  "timers [] = []"
| "timers (AfterFunc d a # evs) = (d, a) # timers evs"
| "timers (_ # evs) = timers evs"

fun writes :: "event list \<Rightarrow> (string \<times> string) list" where
  "writes [] = []"
| "writes (WriteFile name data # evs) = (name, data) # writes evs"
| "writes (_ # evs) = writes evs"

fun outputs :: "event list \<Rightarrow> line list" where
  "outputs [] = []"
| "outputs (Output l # evs) = l # outputs evs"
| "outputs (_ # evs) = outputs evs"

text \<open>The heating control requests of a trace: the ones sent with \<open>PUT\<close>.\<close>

definition commands :: "event list \<Rightarrow> request list" where
  "commands evs = filter (\<lambda>q. req_verb q = ''PUT'') (requests evs)"

section \<open>A concrete installation\<close>

text \<open>An instance of \<open>fmt.Sprintf\<close> for formats whose only verb is one \<open>%s\<close>.\<close>

fun fill_s :: "string \<Rightarrow> string \<Rightarrow> string" where
  "fill_s [] a = []"
| "fill_s (c # cs) a =
     (if c = CHR ''%'' \<and> take 1 cs = ''s'' then a @ drop 1 cs else c # fill_s cs a)"

definition example_config :: Config where
  "example_config =
     \<lparr>SolarManagerURL = ''https://cloud.solar-manager.ch/v1/stream/sensor/sm-1'',
      SolarManagerSensorID = ''sensor-1'',
      TemperatureThreshold = 55,
      TemperatureTurnOff = 60,
      CheckInterval_cfg = 5,
      WeeklyCheckInterval = 168,
      Username = ''user'',
      Password = ''secret'',
      HeatPumpID = ''pump-17'',
      HeatPumpControlURL = ''https://cloud.solar-manager.ch/v1/control/heat-pump/%s''\<rparr>"

definition fresh :: machine where
  "fresh = \<lparr>hm = NewHeatingManager example_config, disk = Map.empty, trace = []\<rparr>"

text \<open>
  A cloud that accepts every login and refresh with a token valid for an hour, reports
  60 degrees and answers a control request with 204.
\<close>

definition cloud :: "request \<Rightarrow> reply" where
  "cloud req =
     (if req_url req = ''https://cloud.solar-manager.ch/v1/oauth/login''
      then Response \<lparr>StatusCode = 200, auth_body = Some (''token-1'', 3600), temp_body = None\<rparr>
      else if req_url req = ''https://cloud.solar-manager.ch/v1/oauth/refresh''
      then Response \<lparr>StatusCode = 200, auth_body = Some (''token-2'', 3600), temp_body = None\<rparr>
      else if req_verb req = ''GET''
      then Response \<lparr>StatusCode = 200, auth_body = None, temp_body = Some 60\<rparr>
      else Response \<lparr>StatusCode = 204, auth_body = None, temp_body = None\<rparr>)"

text \<open>2026-10-31T07:11:00.123456789Z, in a zone one hour east of UTC.\<close>

definition online :: env where
  "online =
     \<lparr>clock = 1793430660123456789,
      zone = 3600,
      network = cloud,
      valid_url = (\<lambda>url. True),
      Sprintf = fill_s,
      write_file = Written,
      parse_other = (\<lambda>s. None)\<rparr>"

definition offline :: env where
  "offline = online\<lparr>network := (\<lambda>req. TransportError)\<rparr>"

definition disk_full :: env where
  "disk_full = online\<lparr>write_file := WriteFailed None\<rparr>"

definition logged_in :: machine where
  "logged_in = fresh\<lparr>hm := (hm fresh)\<lparr>Token := ''token-1'', TokenExpiry := clock online\<rparr>\<rparr>"

text \<open>The same machine with a checkpoint written 100 hours before the clock of \<open>online\<close>.\<close>

definition checked :: machine where
  "checked = fresh\<lparr>disk := [''lastCheck.txt'' \<mapsto> ''2026-10-27T04:11:00+01:00'']\<rparr>"

section \<open>Events and the manager's fields\<close>

lemma hm_emit [simp]: "hm (emit ev m) = hm m"
  by (simp add: emit_def)

lemma disk_emit [simp]: "disk (emit ev m) = disk m"
  by (simp add: emit_def)

lemma trace_emit [simp]: "trace (emit ev m) = trace m @ [ev]"
  by (simp add: emit_def)

lemma requests_append [simp]: "requests (xs @ ys) = requests xs @ requests ys"
  by (induction xs rule: requests.induct) simp_all

lemma calls_append [simp]: "calls (xs @ ys) = calls xs @ calls ys"
  by (induction xs rule: calls.induct) simp_all

lemma timers_append [simp]: "timers (xs @ ys) = timers xs @ timers ys"
  by (induction xs rule: timers.induct) simp_all

lemma writes_append [simp]: "writes (xs @ ys) = writes xs @ writes ys"
  by (induction xs rule: writes.induct) simp_all

lemma outputs_append [simp]: "outputs (xs @ ys) = outputs xs @ outputs ys"
  by (induction xs rule: outputs.induct) simp_all

section \<open>Authentication\<close>

text \<open>How \<open>login\<close> and \<open>refreshToken\<close> end, by the reply of the network.\<close>

lemma login_cases:
  "login e m =
     (case network e (login_request m) of
        TransportError \<Rightarrow> (emit (Send (login_request m)) m, Some AuthRequestFailed)
      | Response resp \<Rightarrow>
          if StatusCode resp \<noteq> 200
          then (emit (Send (login_request m)) m, Some (AuthenticationFailed (StatusCode resp)))
          else (case auth_body resp of
                  None \<Rightarrow> (emit (Send (login_request m)) m, Some AuthDecodeFailed)
                | Some (tok, expiresIn) \<Rightarrow>
                    ((emit (Send (login_request m)) m)
                       \<lparr>hm := (hm m)\<lparr>Token := tok,
                             TokenExpiry := clock e + wrap64 (expiresIn * 1000000000)\<rparr>\<rparr>,
                     None)))"
  by (simp add: login_def Let_def StatusOK_def Time_Add_def mulDuration_def Second_def
      split: reply.splits option.splits)

lemma refreshToken_cases:
  "refreshToken e m =
     (case network e (refresh_request m) of
        TransportError \<Rightarrow> (emit (Send (refresh_request m)) m, Some RefreshRequestFailed)
      | Response resp \<Rightarrow>
          if StatusCode resp \<noteq> 200
          then (emit (Send (refresh_request m)) m, Some (RefreshStatus (StatusCode resp)))
          else (case auth_body resp of
                  None \<Rightarrow> (emit (Send (refresh_request m)) m, Some RefreshDecodeFailed)
                | Some (tok, expiresIn) \<Rightarrow>
                    ((emit (Send (refresh_request m)) m)
                       \<lparr>hm := (hm m)\<lparr>Token := tok,
                             TokenExpiry := clock e + wrap64 (expiresIn * 1000000000)\<rparr>\<rparr>,
                     None)))"
  by (simp add: refreshToken_def Let_def StatusOK_def Time_Add_def mulDuration_def Second_def
      split: reply.splits option.splits)

lemma login_error_frame:
  assumes "login e m = (m', Some err)"
  shows "m' = emit (Send (login_request m)) m"
  using assms by (auto simp: login_cases split: reply.splits option.splits if_splits)

lemma refreshToken_error_frame:
  assumes "refreshToken e m = (m', Some err)"
  shows "m' = emit (Send (refresh_request m)) m"
  using assms by (auto simp: refreshToken_cases split: reply.splits option.splits if_splits)

text \<open>
  C9. When \<open>login\<close> or \<open>refreshToken\<close> returns an error, \<open>Token\<close> and \<open>TokenExpiry\<close> (and
  every other field of the manager) are what they were before the call: the two
  assignments stand after the last error return.
\<close>

theorem failed_authentication_keeps_session:
  assumes "login e m = (m', Some err) \<or> refreshToken e m = (m', Some err)"
  shows "Token (hm m') = Token (hm m) \<and> TokenExpiry (hm m') = TokenExpiry (hm m) \<and> hm m' = hm m"
  using assms by (auto dest: login_error_frame refreshToken_error_frame)

theorem failed_authentication_keeps_session_witness:
  "login offline fresh = (emit (Send (login_request fresh)) fresh, Some AuthRequestFailed) \<and>
   Token (hm (emit (Send (login_request fresh)) fresh)) = Token (hm fresh) \<and>
   TokenExpiry (hm (emit (Send (login_request fresh)) fresh)) = TokenExpiry (hm fresh)"
proof -
  have failed: "login offline fresh = (emit (Send (login_request fresh)) fresh, Some AuthRequestFailed)"
    by (simp add: login_cases offline_def)
  from failed_authentication_keeps_session [OF disjI1 [OF failed]] failed
  show ?thesis by simp
qed

text \<open>What \<open>login\<close>, \<open>refreshToken\<close> and \<open>getAuthToken\<close> leave alone.\<close>

lemma login_frame:
  assumes "login e m = (m', r)"
  shows "Config (hm m') = Config (hm m) \<and> TemperatureExceeded (hm m') = TemperatureExceeded (hm m) \<and>
         CheckInterval (hm m') = CheckInterval (hm m) \<and> LastCheckFile (hm m') = LastCheckFile (hm m) \<and>
         disk m' = disk m \<and> trace m' = trace m @ [Send (login_request m)]"
  using assms by (auto simp: login_cases split: reply.splits option.splits if_splits)

lemma refreshToken_frame:
  assumes "refreshToken e m = (m', r)"
  shows "Config (hm m') = Config (hm m) \<and> TemperatureExceeded (hm m') = TemperatureExceeded (hm m) \<and>
         CheckInterval (hm m') = CheckInterval (hm m) \<and> LastCheckFile (hm m') = LastCheckFile (hm m) \<and>
         disk m' = disk m \<and> trace m' = trace m @ [Send (refresh_request m)]"
  using assms by (auto simp: refreshToken_cases split: reply.splits option.splits if_splits)

lemma getAuthToken_frame:
  assumes "getAuthToken e m = (m', r)"
  shows "Config (hm m') = Config (hm m) \<and> TemperatureExceeded (hm m') = TemperatureExceeded (hm m) \<and>
         CheckInterval (hm m') = CheckInterval (hm m) \<and> LastCheckFile (hm m') = LastCheckFile (hm m) \<and>
         disk m' = disk m \<and>
         (trace m' = trace m \<or> trace m' = trace m @ [Send (login_request m)] \<or>
          trace m' = trace m @ [Send (refresh_request m)])"
  using assms login_frame [of e m m' r] refreshToken_frame [of e m m' r]
  by (auto simp: getAuthToken_def split: if_splits)

text \<open>
  C6, as the code has it. \<open>getAuthToken\<close> decides three ways: with no token held it is
  \<open>login\<close> (one request, to the login endpoint); with a token held and the clock strictly
  after \<open>TokenExpiry\<close> it is \<open>refreshToken\<close> (one request, to the refresh endpoint); with
  a token held and the clock at or before \<open>TokenExpiry\<close> it returns success, sends
  nothing and leaves the manager as it was. The test is \<open>time.Now().After(hm.TokenExpiry)\<close>,
  so at the instant of expiry itself the token is still reused.
\<close>

theorem getAuthToken_three_way:
  "(Token (hm m) = [] \<longrightarrow>
      getAuthToken e m = login e m \<and>
      trace (fst (getAuthToken e m)) = trace m @ [Send (login_request m)]) \<and>
   (Token (hm m) \<noteq> [] \<and> TokenExpiry (hm m) < clock e \<longrightarrow>
      getAuthToken e m = refreshToken e m \<and>
      trace (fst (getAuthToken e m)) = trace m @ [Send (refresh_request m)]) \<and>
   (Token (hm m) \<noteq> [] \<and> clock e \<le> TokenExpiry (hm m) \<longrightarrow>
      getAuthToken e m = (m, None))"
proof (intro conjI impI)
  assume "Token (hm m) = []"
  then show "getAuthToken e m = login e m" by (simp add: getAuthToken_def)
  then show "trace (fst (getAuthToken e m)) = trace m @ [Send (login_request m)]"
    using login_frame [of e m "fst (login e m)" "snd (login e m)"] by simp
next
  assume h: "Token (hm m) \<noteq> [] \<and> TokenExpiry (hm m) < clock e"
  then show "getAuthToken e m = refreshToken e m"
    by (simp add: getAuthToken_def Time_After_def)
  then show "trace (fst (getAuthToken e m)) = trace m @ [Send (refresh_request m)]"
    using refreshToken_frame [of e m "fst (refreshToken e m)" "snd (refreshToken e m)"] by simp
next
  assume "Token (hm m) \<noteq> [] \<and> clock e \<le> TokenExpiry (hm m)"
  then show "getAuthToken e m = (m, None)"
    by (simp add: getAuthToken_def Time_After_def)
qed

lemma logged_in_held: "Token (hm logged_in) \<noteq> [] \<and> TokenExpiry (hm logged_in) = clock online"
  by (simp add: logged_in_def)

theorem getAuthToken_three_way_witness:
  "Token (hm fresh) = [] \<and> getAuthToken online fresh = login online fresh \<and>
   Token (hm logged_in) \<noteq> [] \<and>
   TokenExpiry (hm logged_in) < clock (online\<lparr>clock := clock online + 1\<rparr>) \<and>
   getAuthToken (online\<lparr>clock := clock online + 1\<rparr>) logged_in =
     refreshToken (online\<lparr>clock := clock online + 1\<rparr>) logged_in \<and>
   clock online \<le> TokenExpiry (hm logged_in) \<and>
   getAuthToken online logged_in = (logged_in, None)"
  using getAuthToken_three_way [of fresh online]
    getAuthToken_three_way [of logged_in "online\<lparr>clock := clock online + 1\<rparr>"]
    getAuthToken_three_way [of logged_in online] logged_in_held
  by (simp add: fresh_def NewHeatingManager_def)

text \<open>
  At the instant of expiry a held token is not refreshed: no request is sent.
\<close>

theorem refresh_at_expiry_counterexample:
  "Token (hm logged_in) \<noteq> [] \<and> TokenExpiry (hm logged_in) \<le> clock online \<and>
   getAuthToken online logged_in = (logged_in, None) \<and>
   getAuthToken online logged_in \<noteq> refreshToken online logged_in \<and>
   trace (fst (getAuthToken online logged_in)) = trace logged_in"
proof -
  have noop: "getAuthToken online logged_in = (logged_in, None)"
    using logged_in_held by (simp add: getAuthToken_def Time_After_def)
  have "trace (fst (refreshToken online logged_in)) \<noteq> trace logged_in"
    using refreshToken_frame [of online logged_in "fst (refreshToken online logged_in)"
        "snd (refreshToken online logged_in)"] by simp
  then have "refreshToken online logged_in \<noteq> (logged_in, None)" by auto
  with noop logged_in_held show ?thesis by simp
qed

section \<open>Temperature\<close>

lemma getTemperature_cases:
  "getTemperature e m =
     (case getAuthToken e m of
        (m1, Some err) \<Rightarrow> (m1, Inl err)
      | (m1, None) \<Rightarrow>
          if \<not> valid_url e (req_url (sensor_request m1)) then (m1, Inl CreatingRequest)
          else (case network e (sensor_request m1) of
                  TransportError \<Rightarrow> (emit (Send (sensor_request m1)) m1, Inl GetTemperatureFailed)
                | Response resp \<Rightarrow>
                    if StatusCode resp \<noteq> 200
                    then (emit (Send (sensor_request m1)) m1,
                          Inl (GetTemperatureStatus (StatusCode resp)))
                    else (case temp_body resp of
                            None \<Rightarrow> (emit (Send (sensor_request m1)) m1, Inl UnmarshalTemperature)
                          | Some t \<Rightarrow> (emit (Send (sensor_request m1)) m1, Inr t))))"
  by (simp add: getTemperature_def Let_def StatusOK_def
      split: prod.splits option.splits reply.splits)

lemma getTemperature_frame:
  assumes "getTemperature e m = (m', r)"
  shows "Config (hm m') = Config (hm m) \<and> TemperatureExceeded (hm m') = TemperatureExceeded (hm m) \<and>
         CheckInterval (hm m') = CheckInterval (hm m) \<and> LastCheckFile (hm m') = LastCheckFile (hm m) \<and>
         disk m' = disk m \<and> outputs (trace m') = outputs (trace m) \<and>
         calls (trace m') = calls (trace m) \<and> timers (trace m') = timers (trace m) \<and>
         writes (trace m') = writes (trace m)"
proof -
  obtain m1 r1 where auth: "getAuthToken e m = (m1, r1)" by (cases "getAuthToken e m")
  from getAuthToken_frame [OF auth]
  have m1: "Config (hm m1) = Config (hm m)" "TemperatureExceeded (hm m1) = TemperatureExceeded (hm m)"
    "CheckInterval (hm m1) = CheckInterval (hm m)" "LastCheckFile (hm m1) = LastCheckFile (hm m)"
    "disk m1 = disk m" "outputs (trace m1) = outputs (trace m)" "calls (trace m1) = calls (trace m)"
    "timers (trace m1) = timers (trace m)" "writes (trace m1) = writes (trace m)"
    by auto
  have "m' = m1 \<or> m' = emit (Send (sensor_request m1)) m1"
    using assms auth
    by (auto simp: getTemperature_cases split: option.splits reply.splits if_splits)
  with m1 show ?thesis by auto
qed

text \<open>
  C8. When the temperature read returns an error, whatever its kind, \<open>checkTemperature\<close>
  logs it and returns: the \<open>TemperatureExceeded\<close> flag is what it was before the tick, no
  reading is put in its place, and the configuration, the checkpoint file and the timers
  are untouched.
\<close>

theorem failed_reading_keeps_flag:
  assumes "getTemperature e m = (m1, Inl err)"
  shows "TemperatureExceeded (hm (checkTemperature e m)) = TemperatureExceeded (hm m) \<and>
         checkTemperature e m = emit (Output (FailedToGetTemperature err)) m1 \<and>
         outputs (trace (checkTemperature e m)) = outputs (trace m) @ [FailedToGetTemperature err] \<and>
         Config (hm (checkTemperature e m)) = Config (hm m) \<and>
         disk (checkTemperature e m) = disk m"
  using assms getTemperature_frame [OF assms] by (simp add: checkTemperature_def)

lemma logged_in_reuses: "getAuthToken (online\<lparr>network := n\<rparr>) logged_in = (logged_in, None)"
  using logged_in_held by (simp add: getAuthToken_def Time_After_def)

lemma offline_reading:
  "getTemperature offline logged_in =
     (emit (Send (sensor_request logged_in)) logged_in, Inl GetTemperatureFailed)"
  using logged_in_reuses [of "\<lambda>req. TransportError"]
  by (simp add: getTemperature_cases offline_def online_def)

theorem failed_reading_keeps_flag_witness:
  "getTemperature offline logged_in =
     (emit (Send (sensor_request logged_in)) logged_in, Inl GetTemperatureFailed) \<and>
   TemperatureExceeded (hm (checkTemperature offline logged_in)) = TemperatureExceeded (hm logged_in) \<and>
   outputs (trace (checkTemperature offline logged_in)) =
     outputs (trace logged_in) @ [FailedToGetTemperature GetTemperatureFailed]"
  using failed_reading_keeps_flag [OF offline_reading] offline_reading by simp

text \<open>
  C5. On a successful reading \<open>t\<close>, \<open>checkTemperature\<close> leaves the flag true when \<open>t\<close> is
  strictly above the configured threshold and false when it is at or below it; a second
  tick with the same reading leaves the flag as the first one set it.
\<close>

theorem reading_sets_flag:
  assumes "getTemperature e m = (m1, Inr t)"
  shows "(TemperatureThreshold (Config (hm m)) < t \<longrightarrow>
            TemperatureExceeded (hm (checkTemperature e m))) \<and>
         (t \<le> TemperatureThreshold (Config (hm m)) \<longrightarrow>
            \<not> TemperatureExceeded (hm (checkTemperature e m))) \<and>
         (\<forall>e' m2. getTemperature e' (checkTemperature e m) = (m2, Inr t) \<longrightarrow>
            TemperatureExceeded (hm (checkTemperature e' (checkTemperature e m))) =
            TemperatureExceeded (hm (checkTemperature e m)))"
proof -
  have cfg1: "Config (hm m1) = Config (hm m)"
    using getTemperature_frame [OF assms] by simp
  have first: "TemperatureExceeded (hm (checkTemperature e m)) =
      (TemperatureThreshold (Config (hm m)) < t)"
    using assms cfg1 by (simp add: checkTemperature_def)
  have cfg: "Config (hm (checkTemperature e m)) = Config (hm m)"
    using assms cfg1 by (simp add: checkTemperature_def)
  have again: "TemperatureExceeded (hm (checkTemperature e' (checkTemperature e m))) =
      (TemperatureThreshold (Config (hm m)) < t)"
    if "getTemperature e' (checkTemperature e m) = (m2, Inr t)" for e' m2
    using that getTemperature_frame [OF that] cfg by (simp add: checkTemperature_def [of e'])
  from first again show ?thesis by auto
qed

lemma sensor_request_logged_in:
  "sensor_request logged_in =
     \<lparr>req_verb = ''GET'',
      req_url = ''https://cloud.solar-manager.ch/v1/stream/sensor/sm-1/sensor-1'',
      req_header = [(''Authorization'', ''Bearer token-1'')],
      req_body = None\<rparr>"
  by (simp add: sensor_request_def logged_in_def fresh_def NewHeatingManager_def example_config_def)

lemma warm_reading:
  "getTemperature online logged_in = (emit (Send (sensor_request logged_in)) logged_in, Inr 60)"
  using logged_in_reuses [of cloud]
  by (simp add: getTemperature_cases online_def cloud_def sensor_request_logged_in)

lemma threshold_reading:
  "getTemperature (online\<lparr>network := \<lambda>req. Response \<lparr>StatusCode = 200, auth_body = None,
       temp_body = Some 55\<rparr>\<rparr>) logged_in =
     (emit (Send (sensor_request logged_in)) logged_in, Inr 55)"
  using logged_in_reuses [of "\<lambda>req. Response \<lparr>StatusCode = 200, auth_body = None,
       temp_body = Some 55\<rparr>"]
  by (simp add: getTemperature_cases online_def)

lemma threshold_logged_in: "TemperatureThreshold (Config (hm logged_in)) = 55"
  by (simp add: logged_in_def fresh_def NewHeatingManager_def example_config_def)

lemma warm_tick:
  "checkTemperature online logged_in =
     (emit (Output (TemperatureHasExceeded 55)) (emit (Send (sensor_request logged_in)) logged_in))
       \<lparr>hm := (hm logged_in)\<lparr>TemperatureExceeded := True\<rparr>\<rparr>"
  using warm_reading threshold_logged_in by (simp add: checkTemperature_def)

lemma getTemperature_held:
  assumes "getAuthToken e m = (m, None)" and "valid_url e (req_url (sensor_request m))"
    and "network e (sensor_request m) = Response resp"
    and "StatusCode resp = 200" and "temp_body resp = Some t"
  shows "getTemperature e m = (emit (Send (sensor_request m)) m, Inr t)"
  using assms by (simp add: getTemperature_cases)

lemma cloud_reading:
  "network online (sensor_request logged_in) =
     Response \<lparr>StatusCode = 200, auth_body = None, temp_body = Some 60\<rparr>"
  by (simp add: sensor_request_logged_in online_def cloud_def)

lemma second_warm_reading:
  "getTemperature online (checkTemperature online logged_in) =
     (emit (Send (sensor_request logged_in)) (checkTemperature online logged_in), Inr 60)"
proof -
  have held: "getAuthToken online (checkTemperature online logged_in) =
      (checkTemperature online logged_in, None)"
    using logged_in_held by (simp add: warm_tick getAuthToken_def Time_After_def)
  have same: "sensor_request (checkTemperature online logged_in) = sensor_request logged_in"
    by (simp add: warm_tick sensor_request_def)
  have valid: "valid_url online url" for url
    by (simp add: online_def)
  from getTemperature_held [OF held valid, of _ 60] cloud_reading same
  show ?thesis by simp
qed

theorem reading_sets_flag_witness:
  "getTemperature online logged_in = (emit (Send (sensor_request logged_in)) logged_in, Inr 60) \<and>
   TemperatureThreshold (Config (hm logged_in)) < 60 \<and>
   TemperatureExceeded (hm (checkTemperature online logged_in)) \<and>
   (55::real) \<le> TemperatureThreshold (Config (hm logged_in)) \<and>
   \<not> TemperatureExceeded (hm (checkTemperature
        (online\<lparr>network := \<lambda>req. Response \<lparr>StatusCode = 200, auth_body = None,
           temp_body = Some 55\<rparr>\<rparr>) logged_in)) \<and>
   getTemperature online (checkTemperature online logged_in) =
     (emit (Send (sensor_request logged_in)) (checkTemperature online logged_in), Inr 60) \<and>
   TemperatureExceeded (hm (checkTemperature online (checkTemperature online logged_in))) =
     TemperatureExceeded (hm (checkTemperature online logged_in))"
proof -
  note first = reading_sets_flag [OF warm_reading]
  from first have again:
    "TemperatureExceeded (hm (checkTemperature online (checkTemperature online logged_in))) =
     TemperatureExceeded (hm (checkTemperature online logged_in))"
    using second_warm_reading by blast
  from first reading_sets_flag [OF threshold_reading] warm_reading threshold_logged_in
    second_warm_reading again
  show ?thesis by simp
qed

section \<open>Heating control\<close>

lemma makeHeatingControlRequest_cases:
  "makeHeatingControlRequest e url requestBody m =
     (if \<not> valid_url e url then (m, Some CreatingRequest)
      else (case network e (control_request url requestBody m) of
              TransportError \<Rightarrow>
                (emit (Send (control_request url requestBody m)) m, Some ExecutingRequest)
            | Response resp \<Rightarrow>
                if StatusCode resp = 200
                then (emit (Output HeatPumpStateChanged)
                        (emit (Send (control_request url requestBody m)) m), None)
                else if StatusCode resp = 204
                then (emit (Send (control_request url requestBody m)) m, None)
                else (emit (Send (control_request url requestBody m)) m,
                      Some (ModifyHeatPumpState (StatusCode resp)))))"
  by (simp add: makeHeatingControlRequest_def Let_def StatusOK_def StatusNoContent_def
      split: reply.splits)

lemma makeHeatingControlRequest_frame:
  assumes "makeHeatingControlRequest e url requestBody m = (m', r)"
  shows "hm m' = hm m \<and> disk m' = disk m \<and> calls (trace m') = calls (trace m) \<and>
         timers (trace m') = timers (trace m) \<and> writes (trace m') = writes (trace m) \<and>
         requests (trace m') =
           requests (trace m) @ (if valid_url e url then [control_request url requestBody m] else [])"
  using assms
  by (auto simp: makeHeatingControlRequest_cases split: reply.splits if_splits)

lemma getAuthToken_projections:
  assumes "getAuthToken e m = (m', r)"
  shows "calls (trace m') = calls (trace m) \<and> timers (trace m') = timers (trace m) \<and>
         writes (trace m') = writes (trace m) \<and> outputs (trace m') = outputs (trace m) \<and>
         commands (trace m') = commands (trace m)"
  using getAuthToken_frame [OF assms]
  by (auto simp: commands_def login_request_def refresh_request_def)

lemma turnHeatingOn_frame:
  assumes "turnHeatingOn e m = (m', r)"
  shows "Config (hm m') = Config (hm m) \<and> TemperatureExceeded (hm m') = TemperatureExceeded (hm m) \<and>
         CheckInterval (hm m') = CheckInterval (hm m) \<and> LastCheckFile (hm m') = LastCheckFile (hm m) \<and>
         disk m' = disk m \<and> calls (trace m') = calls (trace m) @ [HeatingOn] \<and>
         timers (trace m') = timers (trace m) \<and> writes (trace m') = writes (trace m)"
proof -
  obtain m1 r1 where auth: "getAuthToken e (emit (Call HeatingOn) m) = (m1, r1)"
    by (cases "getAuthToken e (emit (Call HeatingOn) m)")
  note a = getAuthToken_frame [OF auth] getAuthToken_projections [OF auth]
  show ?thesis
  proof (cases r1)
    case (Some err)
    with assms auth have "m' = m1" by (simp add: turnHeatingOn_def Let_def)
    with a show ?thesis by simp
  next
    case None
    with assms auth have "makeHeatingControlRequest e
        (Sprintf e (HeatPumpControlURL (Config (hm m1))) (HeatPumpID (Config (hm m1))))
        (chargingMode 1) m1 = (m', r)"
      by (simp add: turnHeatingOn_def Let_def)
    from makeHeatingControlRequest_frame [OF this] a show ?thesis by simp
  qed
qed


lemma commands_append [simp]: "commands (xs @ ys) = commands xs @ commands ys"
  by (simp add: commands_def)

lemma commands_emit:
  "commands (trace (emit ev m)) = commands (trace m) @ commands [ev]"
  by simp

lemma control_request_fields:
  "req_verb (control_request url requestBody m) = ''PUT'' \<and>
   req_url (control_request url requestBody m) = url \<and>
   req_header (control_request url requestBody m) =
     [(''Authorization'', ''Bearer '' @ Token (hm m)), (''Content-Type'', ''application/json'')] \<and>
   req_body (control_request url requestBody m) = Some requestBody"
  by (simp add: control_request_def)

lemma makeHeatingControlRequest_commands:
  assumes "makeHeatingControlRequest e url requestBody m = (m', r)"
  shows "commands (trace m') =
           commands (trace m) @ (if valid_url e url then [control_request url requestBody m] else [])"
  using assms
  by (auto simp: makeHeatingControlRequest_cases commands_def control_request_fields
      split: reply.splits if_splits)

text \<open>
  What one call of \<open>turnHeatingOn\<close> sends: at most one control request, none when the
  token could not be had or the URL was refused, and that request carries mode 1.
\<close>

lemma turnHeatingOn_commands:
  assumes "turnHeatingOn e m = (m', r)"
  shows "\<exists>m1 r1. getAuthToken e (emit (Call HeatingOn) m) = (m1, r1) \<and>
           commands (trace m') = commands (trace m) @
             (if r1 = None \<and>
                 valid_url e (Sprintf e (HeatPumpControlURL (Config (hm m))) (HeatPumpID (Config (hm m))))
              then [control_request
                      (Sprintf e (HeatPumpControlURL (Config (hm m))) (HeatPumpID (Config (hm m))))
                      (chargingMode 1) m1]
              else [])"
proof -
  obtain m1 r1 where auth: "getAuthToken e (emit (Call HeatingOn) m) = (m1, r1)"
    by (cases "getAuthToken e (emit (Call HeatingOn) m)")
  have cfg: "Config (hm m1) = Config (hm m)"
    using getAuthToken_frame [OF auth] by simp
  have same: "commands (trace m1) = commands (trace m)"
    using getAuthToken_projections [OF auth] by (simp add: commands_def)
  show ?thesis
  proof (cases r1)
    case (Some err)
    with assms auth have "m' = m1" by (simp add: turnHeatingOn_def Let_def)
    with auth same Some show ?thesis by simp
  next
    case None
    with assms auth cfg have "makeHeatingControlRequest e
        (Sprintf e (HeatPumpControlURL (Config (hm m))) (HeatPumpID (Config (hm m))))
        (chargingMode 1) m1 = (m', r)"
      by (simp add: turnHeatingOn_def Let_def)
    from makeHeatingControlRequest_commands [OF this] auth same None show ?thesis by simp
  qed
qed

section \<open>The weekly check\<close>

lemma saveLastCheckTime_effect:
  "hm (saveLastCheckTime e m) = hm m \<and>
   writes (trace (saveLastCheckTime e m)) =
     writes (trace m) @ [(LastCheckFile (hm m), Format_RFC3339 (zone e) (clock e))] \<and>
   calls (trace (saveLastCheckTime e m)) = calls (trace m) \<and>
   timers (trace (saveLastCheckTime e m)) = timers (trace m) \<and>
   requests (trace (saveLastCheckTime e m)) = requests (trace m) \<and>
   disk (saveLastCheckTime e m) =
     (disk m)(LastCheckFile (hm m) :=
        (case write_file e of Written \<Rightarrow> Some (Format_RFC3339 (zone e) (clock e))
         | WriteFailed left \<Rightarrow> left))"
  by (simp add: saveLastCheckTime_def Let_def split: write_outcome.splits)

lemma saveLastCheckTime_outputs:
  "outputs (trace (saveLastCheckTime e m)) =
     outputs (trace m) @ (case write_file e of Written \<Rightarrow> [] | WriteFailed left \<Rightarrow> [FailedToSave])"
  by (simp add: saveLastCheckTime_def Let_def split: write_outcome.splits)

text \<open>\<open>weeklyCheck\<close> is its actuation branch, the flag's clearing and the save, in that order.\<close>

lemma weeklyCheck_steps:
  "weeklyCheck e m =
     saveLastCheckTime e ((actuation e m)\<lparr>hm := (hm (actuation e m))\<lparr>TemperatureExceeded := False\<rparr>\<rparr>)"
  by (simp add: weeklyCheck_def actuation_def Let_def)

lemma actuation_frame:
  "Config (hm (actuation e m)) = Config (hm m) \<and>
   LastCheckFile (hm (actuation e m)) = LastCheckFile (hm m) \<and>
   CheckInterval (hm (actuation e m)) = CheckInterval (hm m) \<and>
   disk (actuation e m) = disk m \<and>
   writes (trace (actuation e m)) = writes (trace m)"
proof (cases "TemperatureExceeded (hm m)")
  case True
  then show ?thesis by (simp add: actuation_def)
next
  case False
  obtain m' r where on: "turnHeatingOn e m = (m', r)" by (cases "turnHeatingOn e m")
  from turnHeatingOn_frame [OF on] on False show ?thesis
    by (cases r) (simp_all add: actuation_def)
qed

lemma weeklyCheck_disk:
  "disk (weeklyCheck e m) =
     (disk m)(LastCheckFile (hm m) :=
        (case write_file e of Written \<Rightarrow> Some (Format_RFC3339 (zone e) (clock e))
         | WriteFailed left \<Rightarrow> left))"
  using actuation_frame [of e m] by (simp add: weeklyCheck_steps saveLastCheckTime_effect)

lemma weeklyCheck_hm:
  "hm (weeklyCheck e m) = (hm (actuation e m))\<lparr>TemperatureExceeded := False\<rparr>"
  by (simp add: weeklyCheck_steps saveLastCheckTime_effect)

text \<open>
  C1, as the code has it. After one execution of \<open>weeklyCheck\<close>, whatever the state and
  whatever the outcome of the actuation, the \<open>TemperatureExceeded\<close> flag is false and
  \<open>os.WriteFile\<close> has been called once, on the checkpoint file, with the time of the fire
  in RFC 3339 form. When that write succeeds the checkpoint file holds the time of the
  fire; when it fails the failure is logged and the file holds what the failed write
  left there.
\<close>

theorem weeklyCheck_clears_and_saves:
  "\<not> TemperatureExceeded (hm (weeklyCheck e m)) \<and>
   writes (trace (weeklyCheck e m)) =
     writes (trace m) @ [(LastCheckFile (hm m), Format_RFC3339 (zone e) (clock e))] \<and>
   LastCheckFile (hm (weeklyCheck e m)) = LastCheckFile (hm m) \<and>
   (write_file e = Written \<longrightarrow>
      disk (weeklyCheck e m) (LastCheckFile (hm m)) = Some (Format_RFC3339 (zone e) (clock e))) \<and>
   (\<forall>left. write_file e = WriteFailed left \<longrightarrow>
      disk (weeklyCheck e m) (LastCheckFile (hm m)) = left \<and>
      outputs (trace (weeklyCheck e m)) = outputs (trace (actuation e m)) @ [FailedToSave])"
  using actuation_frame [of e m]
  by (auto simp: weeklyCheck_disk weeklyCheck_hm weeklyCheck_steps saveLastCheckTime_effect
      saveLastCheckTime_outputs)

theorem weeklyCheck_clears_and_saves_witness:
  "write_file online = Written \<and>
   \<not> TemperatureExceeded (hm (weeklyCheck online fresh)) \<and>
   disk (weeklyCheck online fresh) (LastCheckFile (hm fresh)) =
     Some (Format_RFC3339 (zone online) (clock online)) \<and>
   write_file disk_full = WriteFailed None \<and>
   disk (weeklyCheck disk_full fresh) (LastCheckFile (hm fresh)) = None"
  using weeklyCheck_clears_and_saves [of online fresh] weeklyCheck_clears_and_saves [of disk_full fresh]
  by (simp add: online_def disk_full_def)

text \<open>
  With the disk refusing the write, the fire leaves no checkpoint: the file is not there
  afterwards, let alone holding the time of the fire.
\<close>

theorem failed_save_counterexample:
  "\<not> TemperatureExceeded (hm (weeklyCheck disk_full fresh)) \<and>
   disk (weeklyCheck disk_full fresh) (LastCheckFile (hm (weeklyCheck disk_full fresh))) = None \<and>
   disk (weeklyCheck disk_full fresh) (LastCheckFile (hm (weeklyCheck disk_full fresh))) \<noteq>
     Some (Format_RFC3339 (zone disk_full) (clock disk_full))"
  using actuation_frame [of disk_full fresh]
  by (simp add: weeklyCheck_disk weeklyCheck_hm) (simp add: disk_full_def)

text \<open>
  C2. At a weekly fire with \<open>TemperatureExceeded\<close> true, \<open>weeklyCheck\<close> does not call
  \<open>turnHeatingOn\<close>, sends no request and registers no timer: it is the save of the
  checkpoint on the manager with the flag cleared, and nothing else of the manager or of
  the disk changes.
\<close>

theorem weeklyCheck_skips_actuation:
  assumes "TemperatureExceeded (hm m)"
  shows "calls (trace (weeklyCheck e m)) = calls (trace m) \<and>
         requests (trace (weeklyCheck e m)) = requests (trace m) \<and>
         timers (trace (weeklyCheck e m)) = timers (trace m) \<and>
         hm (weeklyCheck e m) = (hm m)\<lparr>TemperatureExceeded := False\<rparr> \<and>
         weeklyCheck e m = saveLastCheckTime e (m\<lparr>hm := (hm m)\<lparr>TemperatureExceeded := False\<rparr>\<rparr>) \<and>
         (\<forall>name. name \<noteq> LastCheckFile (hm m) \<longrightarrow> disk (weeklyCheck e m) name = disk m name)"
proof -
  have skip: "actuation e m = m"
    using assms by (simp add: actuation_def)
  show ?thesis
    by (simp add: weeklyCheck_disk weeklyCheck_hm skip)
      (simp add: weeklyCheck_steps skip saveLastCheckTime_effect)
qed

theorem weeklyCheck_skips_actuation_witness:
  "TemperatureExceeded (hm (checkTemperature online logged_in)) \<and>
   calls (trace (weeklyCheck online (checkTemperature online logged_in))) =
     calls (trace (checkTemperature online logged_in)) \<and>
   requests (trace (weeklyCheck online (checkTemperature online logged_in))) =
     requests (trace (checkTemperature online logged_in)) \<and>
   timers (trace (weeklyCheck online (checkTemperature online logged_in))) =
     timers (trace (checkTemperature online logged_in)) \<and>
   \<not> TemperatureExceeded (hm (weeklyCheck online (checkTemperature online logged_in)))"
proof -
  have warm: "TemperatureExceeded (hm (checkTemperature online logged_in))"
    by (simp add: warm_tick)
  note skipped = weeklyCheck_skips_actuation [OF warm, of online]
  from skipped have "hm (weeklyCheck online (checkTemperature online logged_in)) =
      (hm (checkTemperature online logged_in))\<lparr>TemperatureExceeded := False\<rparr>"
    by blast
  then have "\<not> TemperatureExceeded (hm (weeklyCheck online (checkTemperature online logged_in)))"
    by simp
  with skipped warm show ?thesis by blast
qed

lemma turnHeatingOff_frame:
  assumes "turnHeatingOff e m = (m', r)"
  shows "Config (hm m') = Config (hm m) \<and> TemperatureExceeded (hm m') = TemperatureExceeded (hm m) \<and>
         CheckInterval (hm m') = CheckInterval (hm m) \<and> LastCheckFile (hm m') = LastCheckFile (hm m) \<and>
         disk m' = disk m \<and> calls (trace m') = calls (trace m) @ [HeatingOff] \<and>
         timers (trace m') = timers (trace m) \<and> writes (trace m') = writes (trace m)"
proof -
  obtain m1 r1 where auth: "getAuthToken e (emit (Call HeatingOff) m) = (m1, r1)"
    by (cases "getAuthToken e (emit (Call HeatingOff) m)")
  note a = getAuthToken_frame [OF auth] getAuthToken_projections [OF auth]
  show ?thesis
  proof (cases r1)
    case (Some err)
    with assms auth have "m' = m1" by (simp add: turnHeatingOff_def Let_def)
    with a show ?thesis by simp
  next
    case None
    with assms auth have "makeHeatingControlRequest e
        (Sprintf e (HeatPumpControlURL (Config (hm m1))) (HeatPumpID (Config (hm m1))))
        (chargingMode 2) m1 = (m', r)"
      by (simp add: turnHeatingOff_def Let_def)
    from makeHeatingControlRequest_frame [OF this] a show ?thesis by simp
  qed
qed

text \<open>The function the timer runs calls \<open>turnHeatingOff\<close> once and registers no timer.\<close>

lemma delayedOff_calls:
  "calls (trace (delayedOff e m)) = calls (trace m) @ [HeatingOff] \<and>
   timers (trace (delayedOff e m)) = timers (trace m)"
proof -
  obtain m' r where off: "turnHeatingOff e m = (m', r)" by (cases "turnHeatingOff e m")
  from turnHeatingOff_frame [OF off] off show ?thesis
    by (cases r) (simp_all add: delayedOff_def)
qed

lemma four_hours: "4 * Hour = 14400000000000"
  by (simp add: Hour_def Minute_def Second_def)

text \<open>
  C3. At a weekly fire with \<open>TemperatureExceeded\<close> false, \<open>weeklyCheck\<close> calls
  \<open>turnHeatingOn\<close> exactly once and registers exactly one timer, for \<open>turnHeatingOff\<close>
  after four hours. The timer is registered whatever \<open>turnHeatingOn\<close> returned: its
  error is logged and the fire goes on. The one call sends at most one control request,
  and that request carries mode 1.
\<close>

theorem weeklyCheck_actuates_once:
  assumes "\<not> TemperatureExceeded (hm m)"
  shows "calls (trace (weeklyCheck e m)) = calls (trace m) @ [HeatingOn] \<and>
         timers (trace (weeklyCheck e m)) = timers (trace m) @ [(4 * Hour, HeatingOff)] \<and>
         4 * Hour = 14400000000000 \<and>
         (\<forall>err. snd (turnHeatingOn e m) = Some err \<longrightarrow>
            outputs (trace (actuation e m)) = outputs (trace (fst (turnHeatingOn e m))) @ [FailedToTurnOn err] \<and>
            timers (trace (weeklyCheck e m)) = timers (trace m) @ [(4 * Hour, HeatingOff)]) \<and>
         (\<exists>sent. commands (trace (weeklyCheck e m)) = commands (trace m) @ sent \<and>
            length sent \<le> 1 \<and> (\<forall>q \<in> set sent. req_body q = Some (chargingMode 1)))"
proof -
  obtain m' r where on: "turnHeatingOn e m = (m', r)" by (cases "turnHeatingOn e m")
  note f = turnHeatingOn_frame [OF on]
  have act: "actuation e m =
      emit (AfterFunc (4 * Hour) HeatingOff)
        (case r of Some err \<Rightarrow> emit (Output (FailedToTurnOn err)) m' | None \<Rightarrow> m')"
    using assms on by (simp add: actuation_def)
  have tr: "trace (weeklyCheck e m) = trace (saveLastCheckTime e
      ((actuation e m)\<lparr>hm := (hm (actuation e m))\<lparr>TemperatureExceeded := False\<rparr>\<rparr>))"
    by (simp add: weeklyCheck_steps)
  have c: "calls (trace (weeklyCheck e m)) = calls (trace m) @ [HeatingOn]"
    using f by (cases r) (simp_all add: tr saveLastCheckTime_effect act)
  have t: "timers (trace (weeklyCheck e m)) = timers (trace m) @ [(4 * Hour, HeatingOff)]"
    using f by (cases r) (simp_all add: tr saveLastCheckTime_effect act)
  have l: "outputs (trace (actuation e m)) = outputs (trace (fst (turnHeatingOn e m))) @ [FailedToTurnOn err]"
    if "snd (turnHeatingOn e m) = Some err" for err
    using that on by (simp add: act)
  have same: "commands (trace (weeklyCheck e m)) = commands (trace m')"
    by (cases r) (simp_all add: commands_def tr saveLastCheckTime_effect act)
  from turnHeatingOn_commands [OF on] obtain sent where
    "commands (trace m') = commands (trace m) @ sent" "length sent \<le> 1"
    "\<forall>q \<in> set sent. req_body q = Some (chargingMode 1)"
    by (auto simp: control_request_fields split: if_splits)
  with same have s: "\<exists>sent. commands (trace (weeklyCheck e m)) = commands (trace m) @ sent \<and>
      length sent \<le> 1 \<and> (\<forall>q \<in> set sent. req_body q = Some (chargingMode 1))"
    by auto
  from c t l s four_hours show ?thesis by blast
qed

theorem weeklyCheck_actuates_once_witness:
  "\<not> TemperatureExceeded (hm fresh) \<and>
   calls (trace (weeklyCheck online fresh)) = calls (trace fresh) @ [HeatingOn] \<and>
   timers (trace (weeklyCheck online fresh)) = timers (trace fresh) @ [(4 * Hour, HeatingOff)] \<and>
   snd (turnHeatingOn offline fresh) = Some (GettingAuthToken AuthRequestFailed) \<and>
   timers (trace (weeklyCheck offline fresh)) = timers (trace fresh) @ [(4 * Hour, HeatingOff)]"
proof -
  have cold: "\<not> TemperatureExceeded (hm fresh)"
    by (simp add: fresh_def NewHeatingManager_def)
  have "Token (hm (emit (Call HeatingOn) fresh)) = []"
    by (simp add: fresh_def NewHeatingManager_def)
  then have "snd (getAuthToken offline (emit (Call HeatingOn) fresh)) = Some AuthRequestFailed"
    by (simp add: getAuthToken_def login_cases offline_def)
  then have failed: "snd (turnHeatingOn offline fresh) = Some (GettingAuthToken AuthRequestFailed)"
    by (auto simp: turnHeatingOn_def Let_def split: prod.splits)
  from weeklyCheck_actuates_once [OF cold, of online] weeklyCheck_actuates_once [OF cold, of offline]
    cold failed
  show ?thesis by blast
qed

section \<open>The control request\<close>













section \<open>The delay until the next weekly check\<close>

lemma readLastCheckTime_cases:
  "readLastCheckTime e m =
     (case disk m (LastCheckFile (hm m)) of
        None \<Rightarrow> Inl ReadLastCheckTime
      | Some data \<Rightarrow>
          (case Parse_RFC3339 e data of
             None \<Rightarrow> Inl ParseLastCheckTime
           | Some lastCheck \<Rightarrow> Inr lastCheck))"
  by (simp add: readLastCheckTime_def)

text \<open>Where Go's duration arithmetic is exact: the product and the difference fit \<open>int64\<close>.\<close>

lemma wrap64_fits: "- (2 ^ 63) \<le> x \<Longrightarrow> x < 2 ^ 63 \<Longrightarrow> wrap64 x = x"
  by (simp add: wrap64_def)

lemma mulDuration_Hour_fits:
  assumes "- (2 ^ 63) \<le> w * 3600000000000" and "w * 3600000000000 < 2 ^ 63"
  shows "mulDuration w Hour = w * 3600000000000"
  using assms by (simp add: mulDuration_def Hour_def Minute_def Second_def wrap64_fits)

lemma Time_Sub_fits:
  assumes "u \<le> t" and "t - u < 2 ^ 63"
  shows "Time_Sub t u = t - u"
  using assms by (simp add: Time_Sub_def maxDuration_def minDuration_def)

text \<open>
  C4. \<open>nextWeeklyCheckDuration\<close> is a function of the clock, of what \<open>readLastCheckTime\<close>
  makes of the checkpoint file and of \<open>WeeklyCheckInterval\<close>. When the file cannot be
  read or parsed the delay is 0. Otherwise, with the next check due at the last check
  plus \<open>WeeklyCheckInterval\<close> hours, the delay is 0 when the clock is at or past that
  time and the time left until it when the clock is before it. The sum and the
  difference are Go's (\<open>Time.Add\<close> of a \<open>Duration\<close> product, \<open>time.Until\<close>); where the
  product and the difference fit a \<open>Duration\<close> the delay is the one of
  \<open>computeNextDelay\<close>.
\<close>

theorem nextWeeklyCheckDuration_delay:
  "nextWeeklyCheckDuration e m =
     (case readLastCheckTime e m of
        Inl err \<Rightarrow> 0
      | Inr lastCheck \<Rightarrow>
          if Time_Add lastCheck (mulDuration (WeeklyCheckInterval (Config (hm m))) Hour) \<le> clock e
          then 0
          else Time_Sub (Time_Add lastCheck (mulDuration (WeeklyCheckInterval (Config (hm m))) Hour))
                 (clock e)) \<and>
   ((\<exists>err. readLastCheckTime e m = Inl err) \<longleftrightarrow>
      disk m (LastCheckFile (hm m)) = None \<or>
      (\<exists>data. disk m (LastCheckFile (hm m)) = Some data \<and> Parse_RFC3339 e data = None)) \<and>
   (- (2 ^ 63) \<le> WeeklyCheckInterval (Config (hm m)) * 3600000000000 \<and>
    WeeklyCheckInterval (Config (hm m)) * 3600000000000 < 2 ^ 63 \<and>
    (\<forall>lastCheck. readLastCheckTime e m = Inr lastCheck \<longrightarrow>
       lastCheck + WeeklyCheckInterval (Config (hm m)) * 3600000000000 - clock e < 2 ^ 63) \<longrightarrow>
    nextWeeklyCheckDuration e m =
      computeNextDelay (clock e)
        (case readLastCheckTime e m of Inl err \<Rightarrow> None | Inr lastCheck \<Rightarrow> Some lastCheck)
        (WeeklyCheckInterval (Config (hm m))))"
proof (intro conjI impI)
  show "nextWeeklyCheckDuration e m =
     (case readLastCheckTime e m of
        Inl err \<Rightarrow> 0
      | Inr lastCheck \<Rightarrow>
          if Time_Add lastCheck (mulDuration (WeeklyCheckInterval (Config (hm m))) Hour) \<le> clock e
          then 0
          else Time_Sub (Time_Add lastCheck (mulDuration (WeeklyCheckInterval (Config (hm m))) Hour))
                 (clock e))"
    by (auto simp: nextWeeklyCheckDuration_def Let_def Time_After_def Time_Sub_def
        maxDuration_def minDuration_def split: sum.splits)
next
  show "(\<exists>err. readLastCheckTime e m = Inl err) \<longleftrightarrow>
      disk m (LastCheckFile (hm m)) = None \<or>
      (\<exists>data. disk m (LastCheckFile (hm m)) = Some data \<and> Parse_RFC3339 e data = None)"
    by (auto simp: readLastCheckTime_cases split: option.splits)
next
  assume fits: "- (2 ^ 63) \<le> WeeklyCheckInterval (Config (hm m)) * 3600000000000 \<and>
    WeeklyCheckInterval (Config (hm m)) * 3600000000000 < 2 ^ 63 \<and>
    (\<forall>lastCheck. readLastCheckTime e m = Inr lastCheck \<longrightarrow>
       lastCheck + WeeklyCheckInterval (Config (hm m)) * 3600000000000 - clock e < 2 ^ 63)"
  then have hours: "mulDuration (WeeklyCheckInterval (Config (hm m))) Hour =
      WeeklyCheckInterval (Config (hm m)) * 3600000000000"
    by (simp add: mulDuration_Hour_fits)
  show "nextWeeklyCheckDuration e m =
      computeNextDelay (clock e)
        (case readLastCheckTime e m of Inl err \<Rightarrow> None | Inr lastCheck \<Rightarrow> Some lastCheck)
        (WeeklyCheckInterval (Config (hm m)))"
  proof (cases "readLastCheckTime e m")
    case (Inl err)
    then show ?thesis by (simp add: nextWeeklyCheckDuration_def computeNextDelay_def)
  next
    case (Inr lastCheck)
    with fits have small:
      "lastCheck + WeeklyCheckInterval (Config (hm m)) * 3600000000000 - clock e < 2 ^ 63"
      by blast
    show ?thesis
      using Inr small
      by (simp add: nextWeeklyCheckDuration_def computeNextDelay_def Let_def Time_After_def
          Time_Add_def hours Time_Sub_fits)
  qed
qed

lemma checkpoint_of_checked:
  "readLastCheckTime e checked = Inr 1793070660000000000"
proof -
  have "parseRFC3339 ''2026-10-27T04:11:00+01:00'' = Some 1793070660000000000"
    by code_simp
  then show ?thesis
    by (simp add: readLastCheckTime_cases Parse_RFC3339_def checked_def fresh_def
        NewHeatingManager_def)
qed

lemma no_checkpoint_of_fresh: "readLastCheckTime online fresh = Inl ReadLastCheckTime"
  by (simp add: readLastCheckTime_cases fresh_def)

lemma interval_of_example:
  "WeeklyCheckInterval (Config (hm checked)) = 168 \<and> WeeklyCheckInterval (Config (hm fresh)) = 168"
  by (simp add: checked_def fresh_def NewHeatingManager_def example_config_def)

theorem nextWeeklyCheckDuration_delay_witness:
  "readLastCheckTime online fresh = Inl ReadLastCheckTime \<and>
   nextWeeklyCheckDuration online fresh = 0 \<and>
   readLastCheckTime online checked = Inr 1793070660000000000 \<and>
   nextWeeklyCheckDuration online checked = 68 * 3600000000000 - 123456789 \<and>
   nextWeeklyCheckDuration (online\<lparr>clock := 1793070660000000000 + 168 * 3600000000000\<rparr>) checked = 0"
proof -
  have now: "clock online = 1793430660123456789"
    by (simp add: online_def)
  from nextWeeklyCheckDuration_delay [of online fresh] nextWeeklyCheckDuration_delay [of online checked]
    nextWeeklyCheckDuration_delay [of "online\<lparr>clock := 1793070660000000000 + 168 * 3600000000000\<rparr>" checked]
    no_checkpoint_of_fresh checkpoint_of_checked interval_of_example now
  show ?thesis
    by (simp add: computeNextDelay_def)
qed

section \<open>The calendar and the layout\<close>

lemma div_between:
  fixes x :: int
  assumes "0 < k"
  shows "k * (x div k) \<le> x \<and> x < k * (x div k) + k"
proof -
  have "x = k * (x div k) + x mod k" by simp
  moreover have "0 \<le> x mod k" "x mod k < k" using assms by simp_all
  ultimately show ?thesis by linarith
qed

lemma daysBeforeYear_bounds:
  "400 * daysBeforeYear y \<le> 146097 * y + 699 \<and> 146097 * y - 396 \<le> 400 * daysBeforeYear y"
proof -
  define a where "a = (y + 3) div 4"
  define b where "b = (y + 99) div 100"
  define c where "c = (y + 399) div 400"
  have a: "4 * a \<le> y + 3 \<and> y + 3 < 4 * a + 4"
    unfolding a_def by (rule div_between) simp
  have b: "100 * b \<le> y + 99 \<and> y + 99 < 100 * b + 100"
    unfolding b_def by (rule div_between) simp
  have c: "400 * c \<le> y + 399 \<and> y + 399 < 400 * c + 400"
    unfolding c_def by (rule div_between) simp
  have "daysBeforeYear y = 365 * y + a - b + c"
    by (simp add: daysBeforeYear_def a_def b_def c_def)
  with a b c show ?thesis by linarith
qed

lemma yearOfDay_bounds:
  "daysBeforeYear (yearOfDay d) \<le> d \<and> d < daysBeforeYear (yearOfDay d + 1)"
proof -
  define y where "y = (400 * d) div 146097"
  have y: "146097 * y \<le> 400 * d \<and> 400 * d < 146097 * y + 146097"
    unfolding y_def by (rule div_between) simp
  note b0 = daysBeforeYear_bounds [of "y - 1"]
  note b1 = daysBeforeYear_bounds [of y]
  note b2 = daysBeforeYear_bounds [of "y + 1"]
  note b3 = daysBeforeYear_bounds [of "y + 1 + 1"]
  have unfold: "yearOfDay d = (if d < daysBeforeYear y then y - 1
      else if daysBeforeYear (y + 1) \<le> d then y + 1 else y)"
    by (simp add: yearOfDay_def y_def Let_def)
  consider "d < daysBeforeYear y" | "daysBeforeYear y \<le> d" "daysBeforeYear (y + 1) \<le> d"
    | "daysBeforeYear y \<le> d" "d < daysBeforeYear (y + 1)" by linarith
  then show ?thesis
  proof cases
    case 1
    then have "yearOfDay d = y - 1" by (simp add: unfold)
    moreover have "daysBeforeYear (y - 1) \<le> d" using y b0 by (simp add: algebra_simps)
    ultimately show ?thesis using 1 by simp
  next
    case 2
    then have "yearOfDay d = y + 1" by (simp add: unfold)
    moreover have "d < daysBeforeYear (y + 1 + 1)" using y b3 by (simp add: algebra_simps)
    ultimately show ?thesis using 2 by simp
  next
    case 3
    then have "yearOfDay d = y" by (simp add: unfold)
    then show ?thesis using 3 by simp
  qed
qed


lemma div_from_bounds:
  fixes x :: int
  assumes "k * q \<le> x" and "x < k * q + k"
  shows "x div k = q"
proof -
  have "x = k * q + (x - k * q)" by simp
  moreover have "0 \<le> x - k * q" "x - k * q < k" using assms by simp_all
  ultimately show ?thesis by (rule int_div_pos_eq)
qed

lemma rounded_up_step:
  fixes y :: int
  assumes "0 < k"
  shows "(y + 1 + (k - 1)) div k - (y + (k - 1)) div k = (if y mod k = 0 then 1 else 0)"
proof -
  define q where "q = y div k"
  define r where "r = y mod k"
  have y: "y = k * q + r" and r: "0 \<le> r" "r < k"
    using assms by (simp_all add: q_def r_def)
  have upper: "(y + 1 + (k - 1)) div k = q + 1"
    by (rule div_from_bounds) (use y r in \<open>simp_all add: algebra_simps\<close>)
  show ?thesis
  proof (cases "r = 0")
    case True
    have "(y + (k - 1)) div k = q"
      by (rule div_from_bounds) (use y True assms in \<open>simp_all add: algebra_simps\<close>)
    with upper True show ?thesis by (simp add: r_def)
  next
    case False
    have "(y + (k - 1)) div k = q + 1"
      by (rule div_from_bounds) (use y r False in \<open>simp_all add: algebra_simps\<close>)
    with upper False show ?thesis by (simp add: r_def)
  qed
qed

lemma year_length:
  "daysBeforeYear (y + 1) - daysBeforeYear y = sum_list (monthLengths y)"
proof -
  have n3: "(4::int) - 1 = 3" and n99: "(100::int) - 1 = 99" and n399: "(400::int) - 1 = 399"
    by simp_all
  have p4: "(0::int) < 4" and p100: "(0::int) < 100" and p400: "(0::int) < 400"
    by simp_all
  have four: "(y + 1 + 3) div 4 - (y + 3) div 4 = (if y mod 4 = 0 then 1 else 0)"
    using rounded_up_step [OF p4, of y] by (simp only: n3)
  have hundred: "(y + 1 + 99) div 100 - (y + 99) div 100 = (if y mod 100 = 0 then 1 else 0)"
    using rounded_up_step [OF p100, of y] by (simp only: n99)
  have fourhundred: "(y + 1 + 399) div 400 - (y + 399) div 400 = (if y mod 400 = 0 then 1 else 0)"
    using rounded_up_step [OF p400, of y] by (simp only: n399)
  have sum: "(365 * (y + 1) + a' - b' + c') - (365 * y + a - b + c) = 365 + p - q + r"
    if "a' - a = p" "b' - b = q" "c' - c = r" for a a' b b' c c' p q r :: int
    using that by (simp add: algebra_simps)
  have "y mod 100 = y mod 400 mod 100" "y mod 4 = y mod 100 mod 4"
    by (simp_all add: mod_mod_cancel)
  then have implied: "y mod 400 = 0 \<longrightarrow> y mod 100 = 0" "y mod 100 = 0 \<longrightarrow> y mod 4 = 0"
    by auto
  have leap: "365 + (if p4 then 1 else 0) - (if p100 then 1 else 0) + (if p400 then 1 else 0) =
      (if p4 \<and> (\<not> p100 \<or> p400) then 366 else (365::int))"
    if "p400 \<longrightarrow> p100" "p100 \<longrightarrow> p4" for p4 p100 p400
    using that by (cases p4; cases p100; cases p400; simp)
  have "daysBeforeYear (y + 1) - daysBeforeYear y =
      365 + (if y mod 4 = 0 then 1 else 0) - (if y mod 100 = 0 then 1 else 0) +
      (if y mod 400 = 0 then 1 else 0)"
    unfolding daysBeforeYear_def by (rule sum [OF four hundred fourhundred])
  also have "\<dots> = (if isLeap y then 366 else 365)"
    unfolding isLeap_def by (rule leap [OF implied])
  also have "\<dots> = sum_list (monthLengths y)"
    by (simp add: monthLengths_def)
  finally show ?thesis .
qed

lemma monthLengths_positive: "n \<in> set (monthLengths y) \<Longrightarrow> 28 \<le> n \<and> n \<le> 31"
  by (auto simp: monthLengths_def)

lemma monthDay_inverse:
  assumes "0 \<le> yday" and "yday < sum_list ns" and "monthDay ns month yday = (mo, day)"
  shows "month \<le> mo \<and> nat (mo - month) < length ns \<and> 1 \<le> day \<and>
         day \<le> ns ! nat (mo - month) \<and>
         sum_list (take (nat (mo - month)) ns) + (day - 1) = yday"
  using assms
proof (induction ns arbitrary: month yday)
  case Nil
  then show ?case by simp
next
  case (Cons n ns)
  show ?case
  proof (cases "yday < n")
    case True
    with Cons.prems show ?thesis by auto
  next
    case False
    with Cons.prems have rest: "monthDay ns (month + 1) (yday - n) = (mo, day)"
      and range: "0 \<le> yday - n" "yday - n < sum_list ns"
      by auto
    note ih = Cons.IH [OF range rest]
    then have step: "nat (mo - month) = Suc (nat (mo - (month + 1)))"
      by linarith
    from ih show ?thesis
      by (simp add: step)
  qed
qed

lemma daysBeforeYear_mono:
  assumes "y \<le> z"
  shows "daysBeforeYear y \<le> daysBeforeYear z"
proof -
  have step: "daysBeforeYear x \<le> daysBeforeYear (x + 1)" for x
    using year_length [of x] monthLengths_positive [of _ x]
    by (simp add: monthLengths_def split: if_splits)
  have "daysBeforeYear y \<le> daysBeforeYear (y + int n)" for n
  proof (induction n)
    case 0
    show ?case by simp
  next
    case (Suc n)
    have "y + int (Suc n) = y + int n + 1" by simp
    with step [of "y + int n"] Suc show ?case by (simp only: order_trans)
  qed
  from this [of "nat (z - y)"] assms show ?thesis by simp
qed

lemma yearOfDay_range:
  assumes "0 \<le> d" and "d < 3652425"
  shows "0 \<le> yearOfDay d \<and> yearOfDay d \<le> 9999"
proof -
  have zero: "daysBeforeYear 0 = 0" and top: "daysBeforeYear 10000 = 3652425"
    by (simp_all add: daysBeforeYear_def)
  note b = yearOfDay_bounds [of d]
  have "0 \<le> yearOfDay d"
  proof (rule ccontr)
    assume "\<not> 0 \<le> yearOfDay d"
    then have "yearOfDay d + 1 \<le> 0" by simp
    from daysBeforeYear_mono [OF this] zero b assms show False by simp
  qed
  moreover have "yearOfDay d \<le> 9999"
  proof (rule ccontr)
    assume "\<not> yearOfDay d \<le> 9999"
    then have "10000 \<le> yearOfDay d" by simp
    from daysBeforeYear_mono [OF this] top b assms show False by simp
  qed
  ultimately show ?thesis ..
qed

text \<open>The date of a day number names that day, and its fields are in range.\<close>

lemma absDate_inverse:
  assumes "absDate d = (year, month, day)"
  shows "year = yearOfDay d \<and> 1 \<le> month \<and> month \<le> 12 \<and> 1 \<le> day \<and> day \<le> daysIn month year \<and>
         daysBeforeYear year + sum_list (take (nat (month - 1)) (monthLengths year)) + (day - 1) = d"
proof -
  have year: "year = yearOfDay d"
    using assms by (simp add: absDate_def Let_def split: prod.splits)
  have md: "monthDay (monthLengths year) 1 (d - daysBeforeYear year) = (month, day)"
    using assms by (auto simp: absDate_def Let_def split: prod.splits)
  have lo: "0 \<le> d - daysBeforeYear year"
    using yearOfDay_bounds [of d] year by simp
  have hi: "d - daysBeforeYear year < sum_list (monthLengths year)"
    using yearOfDay_bounds [of d] year_length [of year] year by simp
  have twelve: "length (monthLengths year) = 12"
    by (simp add: monthLengths_def)
  note inv = monthDay_inverse [OF lo hi md]
  from inv twelve have "month \<le> 12" by linarith
  with inv year show ?thesis
    by (simp add: daysIn_def)
qed

lemma digit_char:
  assumes "0 \<le> n" and "n < 10"
  shows "isDigit (digit n) \<and> (of_char (digit n) :: int) = 48 + n"
proof -
  have "(48 + n) mod 256 = 48 + n"
    using assms by simp
  then show ?thesis
    using assms by (simp add: isDigit_def digit_def)
qed

lemma digit_zero: "digit 0 = CHR ''0''"
proof -
  have "(of_char (CHR ''0'') :: int) = 48" by simp
  then have "char_of (48::int) = char_of (of_char (CHR ''0'') :: int)" by simp
  then show ?thesis by (simp only: digit_def char_of_char add_0_right)
qed

lemma atoi_two:
  assumes "0 \<le> a" "a < 10" "0 \<le> b" "b < 10"
  shows "atoi [digit a, digit b] 0 = Some (a * 10 + b)"
  using digit_char [of a] digit_char [of b] assms by simp

lemma atoi_four:
  assumes "0 \<le> a" "a < 10" "0 \<le> b" "b < 10" "0 \<le> c" "c < 10" "0 \<le> d" "d < 10"
  shows "atoi [digit a, digit b, digit c, digit d] 0 = Some (((a * 10 + b) * 10 + c) * 10 + d)"
  using digit_char [of a] digit_char [of b] digit_char [of c] digit_char [of d] assms by simp

lemma utoa_one: "0 \<le> u \<Longrightarrow> u < 10 \<Longrightarrow> utoa u = [digit u]"
  by simp

lemma utoa_step: "10 \<le> u \<Longrightarrow> utoa u = utoa (u div 10) @ [digit (u mod 10)]"
  by simp

lemma replicate_small: "replicate 2 c = [c, c]" "replicate 3 c = [c, c, c]"
  by (simp_all add: numeral_2_eq_2 numeral_3_eq_3)

lemma utoa_two:
  assumes "10 \<le> u" and "u < 100"
  shows "utoa u = [digit (u div 10), digit (u mod 10)]"
proof -
  from assms have "0 \<le> u div 10" "u div 10 < 10" by simp_all
  with assms show ?thesis
    by (simp only: utoa_step [of u] utoa_one append_Cons append_Nil)
qed

lemma utoa_three:
  assumes "100 \<le> u" and "u < 1000"
  shows "utoa u = [digit (u div 10 div 10), digit (u div 10 mod 10), digit (u mod 10)]"
proof -
  from assms have "10 \<le> u div 10" "u div 10 < 100" "10 \<le> u" by simp_all
  then show ?thesis
    by (simp only: utoa_step [of u] utoa_two append_Cons append_Nil)
qed

lemma utoa_four:
  assumes "1000 \<le> u" and "u < 10000"
  shows "utoa u = [digit (u div 10 div 10 div 10), digit (u div 10 div 10 mod 10),
                   digit (u div 10 mod 10), digit (u mod 10)]"
proof -
  from assms have "100 \<le> u div 10" "u div 10 < 1000" "10 \<le> u" by simp_all
  then show ?thesis
    by (simp only: utoa_step [of u] utoa_three append_Cons append_Nil)
qed

lemma div_div_ten:
  fixes x :: int
  shows "x div 10 div 10 = x div 100" and "x div 10 div 10 div 10 = x div 1000"
    and "x div 100 div 10 = x div 1000"
  by (simp_all add: div_mult2_eq [symmetric])

text \<open>A field of two digits, and one of four.\<close>

lemma appendInt_two:
  assumes "0 \<le> x" and "x < 100"
  shows "appendInt x 2 = [digit (x div 10), digit (x mod 10)]"
proof (cases "x < 10")
  case True
  with assms show ?thesis
    by (simp add: appendInt_def digit_zero)
next
  case False
  with assms show ?thesis
    by (simp add: appendInt_def utoa_two del: utoa.simps)
qed

lemma appendInt_four:
  assumes "0 \<le> x" and "x < 10000"
  shows "appendInt x 4 =
           [digit (x div 1000), digit (x div 100 mod 10), digit (x div 10 mod 10), digit (x mod 10)]"
proof -
  have abs: "\<bar>x\<bar> = x" using assms by simp
  consider "x < 10" | "10 \<le> x" "x < 100" | "100 \<le> x" "x < 1000" | "1000 \<le> x"
    by linarith
  then show ?thesis
  proof cases
    case 1
    with assms show ?thesis
      by (simp add: appendInt_def digit_zero replicate_small)
  next
    case 2
    then have "x div 1000 = 0" "x div 100 = 0" "x div 10 mod 10 = x div 10"
      by simp_all
    with 2 show ?thesis
      by (simp add: appendInt_def abs utoa_two digit_zero replicate_small del: utoa.simps)
  next
    case 3
    then have "x div 1000 = 0" "x div 100 mod 10 = x div 100"
      by simp_all
    with 3 show ?thesis
      by (simp add: appendInt_def abs utoa_three digit_zero div_div_ten del: utoa.simps)
  next
    case 4
    with assms show ?thesis
      by (simp add: appendInt_def abs utoa_four div_div_ten del: utoa.simps)
  qed
qed

lemma parse_two:
  assumes "0 \<le> x" and "x < 100"
  shows "atoi [digit (x div 10), digit (x mod 10)] 0 = Some x"
proof -
  from assms have "0 \<le> x div 10" "x div 10 < 10" "0 \<le> x mod 10" "x mod 10 < 10"
    by simp_all
  from atoi_two [OF this] show ?thesis by simp
qed

lemma parse_four:
  assumes "0 \<le> x" and "x < 10000"
  shows "atoi [digit (x div 1000), digit (x div 100 mod 10), digit (x div 10 mod 10),
               digit (x mod 10)] 0 = Some x"
proof -
  from assms have "0 \<le> x div 1000" "x div 1000 < 10" "0 \<le> x div 100 mod 10"
    "x div 100 mod 10 < 10" "0 \<le> x div 10 mod 10" "x div 10 mod 10 < 10"
    "0 \<le> x mod 10" "x mod 10 < 10"
    by simp_all
  note parsed = atoi_four [OF this]
  have "x div 1000 * 10 + x div 100 mod 10 = x div 100"
    using div_mult_mod_eq [of "x div 100" 10] by (simp only: div_div_ten)
  moreover have "x div 100 * 10 + x div 10 mod 10 = x div 10"
    using div_mult_mod_eq [of "x div 10" 10] by (simp only: div_div_ten)
  moreover have "x div 10 * 10 + x mod 10 = x"
    by simp
  ultimately show ?thesis
    using parsed by simp
qed

lemma parseUint_two:
  assumes "0 \<le> x" and "x < 100" and "lo \<le> x" and "x \<le> hi"
  shows "parseUint [digit (x div 10), digit (x mod 10)] lo hi = Some x"
  using assms by (simp add: parseUint_def parse_two del: atoi.simps)

lemma parseUint_four:
  assumes "0 \<le> x" and "x < 10000" and "lo \<le> x" and "x \<le> hi"
  shows "parseUint [digit (x div 1000), digit (x div 100 mod 10), digit (x div 10 mod 10),
                    digit (x mod 10)] lo hi = Some x"
  using assms by (simp add: parseUint_def parse_four del: atoi.simps)

text \<open>\<open>parseRFC3339\<close> on a string of the layout's shape.\<close>

lemma parseRFC3339_layout:
  "parseRFC3339 ([y1, y2, y3, y4, CHR ''-'', m1, m2, CHR ''-'', d1, d2, CHR ''T'',
                  h1, h2, CHR '':'', mi1, mi2, CHR '':'', s1, s2] @ z) =
     (case (parseUint [y1, y2, y3, y4] 0 9999, parseUint [m1, m2] 1 12) of
        (Some year, Some month) \<Rightarrow>
          (case (parseUint [d1, d2] 1 (daysIn month year), parseUint [h1, h2] 0 23,
                 parseUint [mi1, mi2] 0 59, parseUint [s1, s2] 0 59) of
             (Some day, Some hour, Some minute, Some sec) \<Rightarrow>
               parseZone (Date year month day hour minute sec) z
           | _ \<Rightarrow> None)
      | _ \<Rightarrow> None)"
  by (simp add: parseRFC3339_def split: option.splits)

lemma parseZone_layout:
  assumes "sign = CHR ''+'' \<or> sign = CHR ''-''"
  shows "parseZone u [sign, h1, h2, CHR '':'', m1, m2] =
     (case (parseUint [h1, h2] 0 23, parseUint [m1, m2] 0 59) of
        (Some hr, Some mm) \<Rightarrow>
          Some ((u - (if sign = CHR ''-'' then - ((hr * 60 + mm) * 60) else (hr * 60 + mm) * 60))
                  * 1000000000)
      | _ \<Rightarrow> None)"
  using assms by (auto simp: parseZone_def Let_def split: option.splits)


text \<open>An offset of whole minutes, less than a day, is read back as it was written.\<close>

lemma zone_round_trip:
  assumes "offset mod 60 = 0" and "\<bar>offset\<bar> < 86400"
  shows "parseZone u (formatZone offset) = Some ((u - offset) * 1000000000)"
proof (cases "offset = 0")
  case True
  then show ?thesis by (simp add: formatZone_def parseZone_def)
next
  case False
  define z where "z = \<bar>offset\<bar> div 60"
  have whole: "z * 60 = \<bar>offset\<bar>"
    using assms(1) unfolding z_def by (simp add: mod_eq_0_iff_dvd)
  have z: "0 < z" "z < 1440"
    using whole False assms(2) by linarith+
  have q: "quot offset 60 = (if offset < 0 then - z else z)"
    by (simp add: quot_def z_def sgn_if False)
  have az: "\<bar>quot offset 60\<bar> = z" and neg: "quot offset 60 < 0 \<longleftrightarrow> offset < 0"
    using q z by (simp_all split: if_splits)
  have hh: "0 \<le> z div 60" "z div 60 < 100" "0 \<le> z div 60" "z div 60 \<le> 23"
    using z by simp_all
  have mm: "0 \<le> z mod 60" "z mod 60 < 100" "0 \<le> z mod 60" "z mod 60 \<le> 59"
    using z by simp_all
  have fmt: "formatZone offset =
      [if offset < 0 then CHR ''-'' else CHR ''+'',
       digit (z div 60 div 10), digit (z div 60 mod 10), CHR '':'',
       digit (z mod 60 div 10), digit (z mod 60 mod 10)]"
    using False hh mm by (simp add: formatZone_def Let_def az neg appendInt_two)
  have sum: "(z div 60 * 60 + z mod 60) * 60 = \<bar>offset\<bar>"
    using whole by simp
  show ?thesis
  proof (cases "offset < 0")
    case True
    then have "formatZone offset = [CHR ''-'', digit (z div 60 div 10), digit (z div 60 mod 10),
        CHR '':'', digit (z mod 60 div 10), digit (z mod 60 mod 10)]"
      by (simp add: fmt)
    moreover have "- ((z div 60 * 60 + z mod 60) * 60) = offset"
      using sum True by linarith
    ultimately show ?thesis
      by (simp add: parseZone_layout parseUint_two [OF hh] parseUint_two [OF mm])
  next
    case nonneg: False
    then have "formatZone offset = [CHR ''+'', digit (z div 60 div 10), digit (z div 60 mod 10),
        CHR '':'', digit (z mod 60 div 10), digit (z mod 60 mod 10)]"
      by (simp add: fmt)
    moreover have "(z div 60 * 60 + z mod 60) * 60 = offset"
      using sum nonneg by linarith
    ultimately show ?thesis
      by (simp add: parseZone_layout parseUint_two [OF hh] parseUint_two [OF mm])
  qed
qed

lemma clock_fields:
  fixes clk :: int
  assumes "0 \<le> clk" and "clk < 86400"
  shows "0 \<le> clk div 3600 \<and> clk div 3600 \<le> 23 \<and> 0 \<le> clk mod 3600 div 60 \<and>
         clk mod 3600 div 60 \<le> 59 \<and> 0 \<le> clk mod 60 \<and> clk mod 60 \<le> 59 \<and>
         clk div 3600 * 3600 + clk mod 3600 div 60 * 60 + clk mod 60 = clk"
proof -
  have "clk mod 3600 mod 60 = clk mod 60"
    by (simp add: mod_mod_cancel)
  then have "clk mod 3600 div 60 * 60 + clk mod 60 = clk mod 3600"
    using div_mult_mod_eq [of "clk mod 3600" 60] by simp
  moreover have "clk div 3600 * 3600 + clk mod 3600 = clk"
    by simp
  ultimately have "clk div 3600 * 3600 + clk mod 3600 div 60 * 60 + clk mod 60 = clk"
    by linarith
  moreover have "clk div 3600 \<le> 23" using assms by simp
  moreover have "clk mod 3600 div 60 \<le> 59"
  proof -
    have "clk mod 3600 < 3600" by simp
    then show ?thesis by simp
  qed
  moreover have "0 \<le> clk div 3600" using assms by simp
  moreover have "0 \<le> clk mod 3600 div 60"
  proof -
    have "0 \<le> clk mod 3600" by simp
    then show ?thesis by simp
  qed
  moreover have "clk mod 60 \<le> 59"
  proof -
    have "clk mod 60 < 60" by simp
    then show ?thesis by simp
  qed
  ultimately show ?thesis by simp
qed

lemma daysIn_le:
  assumes "1 \<le> month" and "month \<le> 12"
  shows "daysIn month year \<le> 31"
proof -
  have "nat (month - 1) < length (monthLengths year)"
    using assms by (simp add: monthLengths_def)
  then have "monthLengths year ! nat (month - 1) \<in> set (monthLengths year)"
    by (rule nth_mem)
  from monthLengths_positive [OF this] show ?thesis by (simp add: daysIn_def)
qed

text \<open>
  A timestamp is read back as the instant it was written for, to the second: for local
  times from 0000-01-01T00:00:00 to 9999-12-31T23:59:59, the years the layout has
  digits for, and zones whose offset is in whole minutes, as the layout prints them.
\<close>

lemma RFC3339_round_trip:
  assumes zone: "offset mod 60 = 0" "\<bar>offset\<bar> < 86400"
    and lo: "- 62167219200 \<le> t div 1000000000 + offset"
    and hi: "t div 1000000000 + offset < 253402300800"
  shows "parseRFC3339 (Format_RFC3339 offset t) = Some (t div 1000000000 * 1000000000)"
proof -
  define loc where "loc = t div 1000000000 + offset"
  define dn where "dn = loc div 86400 + 719528"
  define clk where "clk = loc mod 86400"
  obtain year month day where date: "absDate dn = (year, month, day)"
    by (cases "absDate dn") auto
  have loc: "loc div 86400 * 86400 + clk = loc"
    by (simp add: clk_def)
  have dn: "0 \<le> dn" "dn < 3652425"
    using lo hi unfolding dn_def loc_def by simp_all
  note inv = absDate_inverse [OF date]
  from inv have y_eq: "year = yearOfDay dn" and m1: "1 \<le> month" and m12: "month \<le> 12"
    and d1: "1 \<le> day" and dmax: "day \<le> daysIn month year"
    and days: "daysBeforeYear year + sum_list (take (nat (month - 1)) (monthLengths year)) +
      (day - 1) = dn"
    by blast+
  from yearOfDay_range [OF dn] have year: "0 \<le> year" "year < 10000" "0 \<le> year" "year \<le> 9999"
    unfolding y_eq by simp_all
  from m1 m12 have month: "0 \<le> month" "month < 100" "1 \<le> month" "month \<le> 12"
    by simp_all
  from d1 dmax daysIn_le [OF m1 m12, of year] have day: "0 \<le> day" "day < 100" "1 \<le> day"
    "day \<le> daysIn month year"
    by simp_all
  have clk: "0 \<le> clk" "clk < 86400"
    by (simp_all add: clk_def)
  note c = clock_fields [OF clk]
  from c have hour: "0 \<le> clk div 3600" "clk div 3600 < 100" "0 \<le> clk div 3600" "clk div 3600 \<le> 23"
    by simp_all
  from c have minute: "0 \<le> clk mod 3600 div 60" "clk mod 3600 div 60 < 100"
    "0 \<le> clk mod 3600 div 60" "clk mod 3600 div 60 \<le> 59"
    by simp_all
  from c have sec: "0 \<le> clk mod 60" "clk mod 60 < 100" "0 \<le> clk mod 60" "clk mod 60 \<le> 59"
    by simp_all
  have fmt: "Format_RFC3339 offset t =
      [digit (year div 1000), digit (year div 100 mod 10), digit (year div 10 mod 10),
       digit (year mod 10), CHR ''-'', digit (month div 10), digit (month mod 10), CHR ''-'',
       digit (day div 10), digit (day mod 10), CHR ''T'',
       digit (clk div 3600 div 10), digit (clk div 3600 mod 10), CHR '':'',
       digit (clk mod 3600 div 60 div 10), digit (clk mod 3600 div 60 mod 10), CHR '':'',
       digit (clk mod 60 div 10), digit (clk mod 60 mod 10)] @ formatZone offset"
    using date [unfolded dn_def loc_def]
    by (simp add: Format_RFC3339_def Let_def clk_def [unfolded loc_def, symmetric]
        appendInt_four [OF year(1,2)] appendInt_two [OF month(1,2)] appendInt_two [OF day(1,2)]
        appendInt_two [OF hour(1,2)] appendInt_two [OF minute(1,2)] appendInt_two [OF sec(1,2)])
  have unix: "Date year month day (clk div 3600) (clk mod 3600 div 60) (clk mod 60) = loc"
  proof -
    from days have "daysBeforeYear year + sum_list (take (nat (month - 1)) (monthLengths year)) +
        (day - 1) - 719528 = loc div 86400"
      by (simp add: dn_def)
    with c loc show ?thesis
      by (simp add: Date_def)
  qed
  have "parseRFC3339 (Format_RFC3339 offset t) = parseZone loc (formatZone offset)"
    unfolding fmt parseRFC3339_layout
    by (simp add: parseUint_four [OF year] parseUint_two [OF month] parseUint_two [OF day]
        parseUint_two [OF hour] parseUint_two [OF minute] parseUint_two [OF sec] unix)
  also have "\<dots> = Some ((loc - offset) * 1000000000)"
    by (rule zone_round_trip [OF zone])
  finally show ?thesis
    by (simp add: loc_def)
qed


section \<open>The checkpoint\<close>

text \<open>
  C10. When the write succeeds, \<open>readLastCheckTime\<close> after \<open>saveLastCheckTime\<close> at time
  \<open>t\<close> succeeds and returns \<open>t\<close> with its sub-second part dropped: the layout has whole
  seconds only. This is for the times the layout can print: a local time from
  0000-01-01T00:00:00 to 9999-12-31T23:59:59 in a zone whose offset is a whole number of
  minutes, less than a day.
\<close>

theorem checkpoint_round_trip:
  assumes "write_file e = Written"
    and "zone e mod 60 = 0" and "\<bar>zone e\<bar> < 86400"
    and "- 62167219200 \<le> clock e div 1000000000 + zone e"
    and "clock e div 1000000000 + zone e < 253402300800"
  shows "readLastCheckTime e' (saveLastCheckTime e m) = Inr (clock e - clock e mod 1000000000) \<and>
         disk (saveLastCheckTime e m) (LastCheckFile (hm m)) = Some (Format_RFC3339 (zone e) (clock e))"
proof -
  have saved: "disk (saveLastCheckTime e m) (LastCheckFile (hm (saveLastCheckTime e m))) =
      Some (Format_RFC3339 (zone e) (clock e))"
    using assms(1) by (simp add: saveLastCheckTime_effect)
  have "parseRFC3339 (Format_RFC3339 (zone e) (clock e)) =
      Some (clock e div 1000000000 * 1000000000)"
    using assms(2-5) by (rule RFC3339_round_trip)
  moreover have "clock e div 1000000000 * 1000000000 = clock e - clock e mod 1000000000"
    by (simp add: algebra_simps minus_mod_eq_mult_div)
  ultimately have "Parse_RFC3339 e' (Format_RFC3339 (zone e) (clock e)) =
      Some (clock e - clock e mod 1000000000)"
    by (simp add: Parse_RFC3339_def)
  with saved show ?thesis
    using assms(1) by (simp add: readLastCheckTime_cases saveLastCheckTime_effect)
qed

theorem checkpoint_round_trip_witness:
  "write_file online = Written \<and> zone online mod 60 = 0 \<and> \<bar>zone online\<bar> < 86400 \<and>
   - 62167219200 \<le> clock online div 1000000000 + zone online \<and>
   clock online div 1000000000 + zone online < 253402300800 \<and>
   clock online = 1793430660123456789 \<and>
   readLastCheckTime offline (saveLastCheckTime online fresh) = Inr 1793430660000000000"
proof -
  have h: "write_file online = Written" "zone online mod 60 = 0" "\<bar>zone online\<bar> < 86400"
    "- 62167219200 \<le> clock online div 1000000000 + zone online"
    "clock online div 1000000000 + zone online < 253402300800"
    by (simp_all add: online_def)
  have now: "clock online = 1793430660123456789"
    by (simp add: online_def)
  from checkpoint_round_trip [OF h, of offline fresh] h now show ?thesis
    by simp
qed

end
